theory Spec2Isabelle
  imports Complex_Main "HOL-Library.Multiset"
begin

section \<open>Values, records and Python's view of them\<close>

text \<open>
  A record of \<^verbatim>\<open>analytics.py\<close> is a Python \<^verbatim>\<open>dict\<close> from field names to scalars.
  The scalars are \<^verbatim>\<open>None\<close>, native integers, native (finite) floats and strings.
  A dict keeps insertion order, so a record is an association list; \<open>map_of\<close> is
  \<^verbatim>\<open>record.get\<close>. A dict holds each key once; where a list repeats a key, the first
  entry is the one a lookup sees. Characters are code points below 256.

  Floats computed by the program are mathematical reals extended with the two
  infinities and NaN: arithmetic on finite values is exact (rounding and overflow of
  IEEE doubles are not part of the model).
\<close>

datatype pyval = VNone | VInt int | VFloat real | VStr string

datatype pyfloat = Fin real | PInf | NInf | NaN

datatype py_error = TypeError | ValueError | OverflowError | ZeroDivisionError

type_synonym pyrecord = "(string \<times> pyval) list"

text \<open>Truthiness, as \<^verbatim>\<open>if value:\<close> tests it.\<close>

fun truthy :: "pyval \<Rightarrow> bool" where
  "truthy VNone = False"
| "truthy (VInt i) = (i \<noteq> 0)"
| "truthy (VFloat r) = (r \<noteq> 0)"
| "truthy (VStr s) = (s \<noteq> [])"

text \<open>
  Equality of dictionary keys (\<^verbatim>\<open>==\<close> together with \<^verbatim>\<open>hash\<close>): an integer and a float
  of the same value are one key, a string is never equal to a number.
\<close>

fun py_eq :: "pyval \<Rightarrow> pyval \<Rightarrow> bool" where
  "py_eq VNone VNone = True"
| "py_eq (VInt i) (VInt j) = (i = j)"
| "py_eq (VInt i) (VFloat r) = (real_of_int i = r)"
| "py_eq (VFloat r) (VInt i) = (r = real_of_int i)"
| "py_eq (VFloat r) (VFloat q) = (r = q)"
| "py_eq (VStr s) (VStr t) = (s = t)"
| "py_eq _ _ = False"

section \<open>Grouping stage\<close>

text \<open>
  \<^verbatim>\<open>record.get('participant_id', record.get('record_id', 'unknown'))\<close>: the default is
  used only when the key is absent from the dict.
\<close>

definition get_default :: "pyrecord \<Rightarrow> string \<Rightarrow> pyval \<Rightarrow> pyval" where
  "get_default r k d = (case map_of r k of Some v \<Rightarrow> v | None \<Rightarrow> d)"

definition participant_key :: "pyrecord \<Rightarrow> pyval" where
  "participant_key r =
     get_default r ''participant_id'' (get_default r ''record_id'' (VStr ''unknown''))"

definition residence_key :: "pyrecord \<Rightarrow> pyval" where
  "residence_key r =
     get_default r ''residence_type'' (get_default r ''location'' (VStr ''unknown''))"

text \<open>
  \<^verbatim>\<open>d = defaultdict(list); d[key].append(record)\<close>: a key equal to one already in the
  dict extends that entry, a new key is added at the end.
\<close>

fun group_append :: "(pyval \<times> 'a list) list \<Rightarrow> pyval \<Rightarrow> 'a \<Rightarrow> (pyval \<times> 'a list) list" where
  "group_append [] k r = [(k, [r])]"
| "group_append ((k', rs) # gs) k r =
     (if py_eq k' k then (k', rs @ [r]) # gs else (k', rs) # group_append gs k r)"

definition group_by :: "('a \<Rightarrow> pyval) \<Rightarrow> 'a list \<Rightarrow> (pyval \<times> 'a list) list" where
  "group_by keyf records = foldl (\<lambda>gs r. group_append gs (keyf r) r) [] records"

section \<open>Strings and numeric coercion\<close>

text \<open>
  \<^verbatim>\<open>str.isdigit()\<close> on code points below 256: the ten ASCII digits and the superscript
  digits (code points 178, 179 and 185); the empty string is not a digit string.
\<close>

definition is_ascii_digit :: "char \<Rightarrow> bool" where
  "is_ascii_digit c \<longleftrightarrow> c \<in> set ''0123456789''"

definition is_unicode_digit :: "char \<Rightarrow> bool" where
  "is_unicode_digit c \<longleftrightarrow> is_ascii_digit c \<or> c \<in> set [CHR 0xB2, CHR 0xB3, CHR 0xB9]"

definition str_isdigit :: "string \<Rightarrow> bool" where
  "str_isdigit s \<longleftrightarrow> s \<noteq> [] \<and> list_all is_unicode_digit s"

text \<open>
  \<^verbatim>\<open>float(s)\<close> on a string: underscores are accepted between two digits only, white
  space is stripped at both ends, then the text is a signed decimal literal with an
  optional fraction and exponent, or one of \<^verbatim>\<open>inf\<close>, \<^verbatim>\<open>infinity\<close>, \<^verbatim>\<open>nan\<close> in any
  letter case. Anything else is a \<^verbatim>\<open>ValueError\<close>, here \<open>None\<close>.
\<close>

definition is_float_space :: "char \<Rightarrow> bool" where
  "is_float_space c \<longleftrightarrow>
     c \<in> set [CHR 0x09, CHR 0x0A, CHR 0x0B, CHR 0x0C, CHR 0x0D, CHR 0x20, CHR 0x85, CHR 0xA0]"

fun strip_underscores :: "char \<Rightarrow> string \<Rightarrow> string option" where
  "strip_underscores prev [] = (if prev = CHR ''_'' then None else Some [])"
| "strip_underscores prev (c # cs) =
     (if c = CHR ''_''
      then (if is_ascii_digit prev then strip_underscores c cs else None)
      else if prev = CHR ''_'' \<and> \<not> is_ascii_digit c then None
      else map_option ((#) c) (strip_underscores c cs))"

definition strip_space :: "string \<Rightarrow> string" where
  "strip_space s = rev (dropWhile is_float_space (rev (dropWhile is_float_space s)))"

definition digit_val :: "char \<Rightarrow> nat" where
  "digit_val c = of_char c - 48"

definition digits_val :: "string \<Rightarrow> nat" where
  "digits_val ds = foldl (\<lambda>n c. 10 * n + digit_val c) 0 ds"

text \<open>Case-insensitive comparison with a lower-case ASCII word.\<close>

fun ci_match :: "(char \<times> char) list \<Rightarrow> string \<Rightarrow> bool" where
  "ci_match [] [] = True"
| "ci_match ((l, u) # ps) (c # cs) = ((c = l \<or> c = u) \<and> ci_match ps cs)"
| "ci_match _ _ = False"

definition is_inf_word :: "string \<Rightarrow> bool" where
  "is_inf_word s \<longleftrightarrow>
     ci_match (zip ''inf'' ''INF'') s \<or> ci_match (zip ''infinity'' ''INFINITY'') s"

definition is_nan_word :: "string \<Rightarrow> bool" where
  "is_nan_word s \<longleftrightarrow> ci_match (zip ''nan'' ''NAN'') s"

text \<open>The exponent part: empty, or \<^verbatim>\<open>e\<close>, an optional sign and at least one digit.\<close>

definition parse_exponent :: "string \<Rightarrow> int option" where
  "parse_exponent s =
     (case s of
        [] \<Rightarrow> Some 0
      | c # r \<Rightarrow>
          if c = CHR ''e'' \<or> c = CHR ''E'' then
            (let (neg, ds) = (case r of
                                [] \<Rightarrow> (False, [])
                              | d # r' \<Rightarrow> if d = CHR ''-'' then (True, r')
                                         else if d = CHR ''+'' then (False, r')
                                         else (False, r))
             in if ds \<noteq> [] \<and> list_all is_ascii_digit ds
                then Some (if neg then - int (digits_val ds) else int (digits_val ds))
                else None)
          else None)"

definition scale10 :: "real \<Rightarrow> int \<Rightarrow> real" where
  "scale10 x e = (if 0 \<le> e then x * 10 ^ nat e else x / 10 ^ nat (- e))"

definition parse_decimal :: "string \<Rightarrow> real option" where
  "parse_decimal s =
     (let ip = takeWhile is_ascii_digit s;
          r1 = dropWhile is_ascii_digit s;
          has_dot = (r1 \<noteq> [] \<and> hd r1 = CHR ''.'');
          fp = (if has_dot then takeWhile is_ascii_digit (tl r1) else []);
          r2 = (if has_dot then dropWhile is_ascii_digit (tl r1) else r1)
      in if ip = [] \<and> fp = [] then None
         else (case parse_exponent r2 of
                 None \<Rightarrow> None
               | Some e \<Rightarrow> Some (scale10 (real (digits_val (ip @ fp))) (e - int (length fp)))))"

definition parse_unsigned :: "bool \<Rightarrow> string \<Rightarrow> pyfloat option" where
  "parse_unsigned neg s =
     (if is_inf_word s then Some (if neg then NInf else PInf)
      else if is_nan_word s then Some NaN
      else map_option (\<lambda>x. Fin (if neg then - x else x)) (parse_decimal s))"

definition float_of_string :: "string \<Rightarrow> pyfloat option" where
  "float_of_string s =
     (case strip_underscores (CHR 0x00) s of
        None \<Rightarrow> None
      | Some t \<Rightarrow>
          (case strip_space t of
             [] \<Rightarrow> None
           | c # r \<Rightarrow> if c = CHR ''-'' then parse_unsigned True r
                      else if c = CHR ''+'' then parse_unsigned False r
                      else parse_unsigned False (c # r)))"

text \<open>
  \<^verbatim>\<open>float(v)\<close> on a value. An integer too large for a double would raise
  \<^verbatim>\<open>OverflowError\<close>; magnitudes are not bounded in this model.
\<close>

fun py_float :: "pyval \<Rightarrow> py_error + pyfloat" where
  "py_float VNone = Inl TypeError"
| "py_float (VInt i) = Inr (Fin (real_of_int i))"
| "py_float (VFloat r) = Inr (Fin r)"
| "py_float (VStr s) = (case float_of_string s of None \<Rightarrow> Inl ValueError | Some f \<Rightarrow> Inr f)"

text \<open>\<^verbatim>\<open>try: xs.append(float(v))  except: continue\<close>\<close>

definition try_float :: "pyval \<Rightarrow> pyfloat option" where
  "try_float v = (case py_float v of Inl e \<Rightarrow> None | Inr f \<Rightarrow> Some f)"

section \<open>Float arithmetic and the numpy reductions\<close>

fun fneg :: "pyfloat \<Rightarrow> pyfloat" where
  "fneg (Fin a) = Fin (- a)"
| "fneg PInf = NInf"
| "fneg NInf = PInf"
| "fneg NaN = NaN"

fun fadd :: "pyfloat \<Rightarrow> pyfloat \<Rightarrow> pyfloat" where
  "fadd (Fin a) (Fin b) = Fin (a + b)"
| "fadd NaN _ = NaN"
| "fadd _ NaN = NaN"
| "fadd PInf NInf = NaN"
| "fadd NInf PInf = NaN"
| "fadd PInf _ = PInf"
| "fadd _ PInf = PInf"
| "fadd NInf _ = NInf"
| "fadd _ NInf = NInf"

definition fsub :: "pyfloat \<Rightarrow> pyfloat \<Rightarrow> pyfloat" where
  "fsub a b = fadd a (fneg b)"

text \<open>The sign of a float, for products and quotients with an infinity.\<close>

fun fsign :: "pyfloat \<Rightarrow> int" where
  "fsign (Fin a) = (if a < 0 then - 1 else if a = 0 then 0 else 1)"
| "fsign PInf = 1"
| "fsign NInf = - 1"
| "fsign NaN = 0"

definition inf_of_sign :: "int \<Rightarrow> pyfloat" where
  "inf_of_sign s = (if s < 0 then NInf else if s = 0 then NaN else PInf)"

fun fmul :: "pyfloat \<Rightarrow> pyfloat \<Rightarrow> pyfloat" where
  "fmul (Fin a) (Fin b) = Fin (a * b)"
| "fmul NaN _ = NaN"
| "fmul _ NaN = NaN"
| "fmul a b = inf_of_sign (fsign a * fsign b)"

text \<open>
  \<^verbatim>\<open>a / b\<close> on floats raises \<^verbatim>\<open>ZeroDivisionError\<close> when the divisor is zero; a finite
  value divided by an infinity is zero.
\<close>

fun fdiv :: "pyfloat \<Rightarrow> pyfloat \<Rightarrow> pyfloat" where
  "fdiv (Fin a) (Fin b) = Fin (a / b)"
| "fdiv NaN _ = NaN"
| "fdiv _ NaN = NaN"
| "fdiv (Fin a) _ = Fin 0"
| "fdiv PInf (Fin b) = (if b < 0 then NInf else PInf)"
| "fdiv NInf (Fin b) = (if b < 0 then PInf else NInf)"
| "fdiv PInf PInf = NaN"
| "fdiv PInf NInf = NaN"
| "fdiv NInf PInf = NaN"
| "fdiv NInf NInf = NaN"

definition py_truediv :: "pyfloat \<Rightarrow> pyfloat \<Rightarrow> py_error + pyfloat" where
  "py_truediv a b = (if b = Fin 0 then Inl ZeroDivisionError else Inr (fdiv a b))"

text \<open>Comparisons: every comparison with NaN is false, \<^verbatim>\<open>!=\<close> with NaN is true.\<close>

fun flt :: "pyfloat \<Rightarrow> pyfloat \<Rightarrow> bool" where
  "flt (Fin a) (Fin b) = (a < b)"
| "flt NaN _ = False"
| "flt _ NaN = False"
| "flt _ NInf = False"
| "flt PInf _ = False"
| "flt NInf _ = True"
| "flt _ PInf = True"

definition fgt :: "pyfloat \<Rightarrow> pyfloat \<Rightarrow> bool" where
  "fgt a b = flt b a"

definition fle :: "pyfloat \<Rightarrow> pyfloat \<Rightarrow> bool" where
  "fle a b \<longleftrightarrow> a \<noteq> NaN \<and> b \<noteq> NaN \<and> (a = b \<or> flt a b)"

definition fge :: "pyfloat \<Rightarrow> pyfloat \<Rightarrow> bool" where
  "fge a b = fle b a"

definition fne :: "pyfloat \<Rightarrow> pyfloat \<Rightarrow> bool" where
  "fne a b \<longleftrightarrow> a = NaN \<or> b = NaN \<or> a \<noteq> b"

text \<open>\<^verbatim>\<open>np.mean\<close> of a non-empty list of floats: the sum divided by the length.\<close>

definition np_mean :: "pyfloat list \<Rightarrow> pyfloat" where
  "np_mean xs = fdiv (foldl fadd (Fin 0) xs) (Fin (real (length xs)))"

text \<open>
  \<^verbatim>\<open>np.median\<close>: NaN when any element is NaN; otherwise the middle element of the
  sorted list, or the mean of the two middle elements.
\<close>

fun finsert :: "pyfloat \<Rightarrow> pyfloat list \<Rightarrow> pyfloat list" where
  "finsert x [] = [x]"
| "finsert x (y # ys) = (if fle x y then x # y # ys else y # finsert x ys)"

definition fsort :: "pyfloat list \<Rightarrow> pyfloat list" where
  "fsort xs = foldr finsert xs []"

definition np_median :: "pyfloat list \<Rightarrow> pyfloat" where
  "np_median xs =
     (if NaN \<in> set xs then NaN
      else (let ys = fsort xs; n = length ys
            in if odd n then ys ! (n div 2)
               else np_mean [ys ! (n div 2 - 1), ys ! (n div 2)]))"

text \<open>
  \<^verbatim>\<open>np.mean\<close> of a non-empty list of raw record values: numpy has no reduction for an
  array that holds a string, a list of native numbers is averaged.
\<close>

fun is_str :: "pyval \<Rightarrow> bool" where
  "is_str (VStr s) = True"
| "is_str _ = False"

fun num_of :: "pyval \<Rightarrow> pyfloat" where
  "num_of (VInt i) = Fin (real_of_int i)"
| "num_of (VFloat r) = Fin r"
| "num_of _ = NaN"

definition np_mean_raw :: "pyval list \<Rightarrow> py_error + pyfloat" where
  "np_mean_raw vs =
     (if list_ex (\<lambda>v. is_str v \<or> v = VNone) vs then Inl TypeError
      else Inr (np_mean (map num_of vs)))"

text \<open>\<^verbatim>\<open>int(x)\<close> on a float truncates towards zero and rejects NaN and the infinities.\<close>

fun py_int :: "pyfloat \<Rightarrow> py_error + int" where
  "py_int (Fin a) = Inr (if 0 \<le> a then \<lfloor>a\<rfloor> else \<lceil>a\<rceil>)"
| "py_int NaN = Inl ValueError"
| "py_int _ = Inl OverflowError"

text \<open>A list comprehension whose element expression may raise: the first error wins.\<close>

fun map_err :: "('a \<Rightarrow> py_error + 'b) \<Rightarrow> 'a list \<Rightarrow> py_error + 'b list" where
  "map_err f [] = Inr []"
| "map_err f (x # xs) =
     (case f x of
        Inl e \<Rightarrow> Inl e
      | Inr y \<Rightarrow> (case map_err f xs of Inl e \<Rightarrow> Inl e | Inr ys \<Rightarrow> Inr (y # ys)))"

section \<open>Analysis documents\<close>

text \<open>
  An analysis document is a nested Python value. A dict is an association list in
  insertion order. An f-string is kept as the sequence of its literal and interpolated
  parts (the rendering of a number as text is not modelled).
\<close>

datatype fpart = FLit string | FInt int | FVal pyval

datatype doc =
    DVal pyval
  | DFloat pyfloat
  | DBool bool
  | DFmt "fpart list"
  | DList "doc list"
  | DTuple "doc list"
  | DDict "(pyval \<times> doc) list"

abbreviation DInt :: "int \<Rightarrow> doc" where
  "DInt i \<equiv> DVal (VInt i)"

abbreviation DStr :: "string \<Rightarrow> doc" where
  "DStr s \<equiv> DVal (VStr s)"

abbreviation DLen :: "'a list \<Rightarrow> doc" where
  "DLen xs \<equiv> DVal (VInt (int (length xs)))"

text \<open>\<^verbatim>\<open>d[k] = v\<close> on a dict: an equal key keeps its place, a new key goes last.\<close>

fun dict_set :: "(pyval \<times> 'v) list \<Rightarrow> pyval \<Rightarrow> 'v \<Rightarrow> (pyval \<times> 'v) list" where
  "dict_set [] k v = [(k, v)]"
| "dict_set ((k', v') # d) k v =
     (if py_eq k' k then (k', v) # d else (k', v') # dict_set d k v)"

fun dict_get :: "(pyval \<times> 'v) list \<Rightarrow> pyval \<Rightarrow> 'v option" where
  "dict_get [] k = None"
| "dict_get ((k', v') # d) k = (if py_eq k' k then Some v' else dict_get d k)"

text \<open>Reading a document: the keys of a dict, and the value under a string key.\<close>

fun doc_keys :: "doc \<Rightarrow> pyval list" where
  "doc_keys (DDict d) = map fst d"
| "doc_keys _ = []"

fun doc_get :: "doc \<Rightarrow> string \<Rightarrow> doc option" where
  "doc_get (DDict d) k = dict_get d (VStr k)"
| "doc_get _ k = None"

text \<open>\<^verbatim>\<open>Counter(values)\<close>: occurrences per key, keys in order of first occurrence.\<close>

fun counter_add :: "(pyval \<times> nat) list \<Rightarrow> pyval \<Rightarrow> (pyval \<times> nat) list" where
  "counter_add [] k = [(k, 1)]"
| "counter_add ((k', n) # c) k =
     (if py_eq k' k then (k', Suc n) # c else (k', n) # counter_add c k)"

definition counter :: "pyval list \<Rightarrow> (pyval \<times> nat) list" where
  "counter vs = foldl counter_add [] vs"

definition counter_doc :: "(pyval \<times> nat) list \<Rightarrow> doc" where
  "counter_doc c = DDict (map (\<lambda>(k, n). (k, DInt (int n))) c)"

text \<open>\<^verbatim>\<open>len(set(xs))\<close>: the number of keys that are pairwise different.\<close>

definition count_distinct :: "pyval list \<Rightarrow> nat" where
  "count_distinct vs = length (counter vs)"

text \<open>
  \<^verbatim>\<open>max(xs, key=f)\<close> on a non-empty list keeps the first element unless a later one
  has a strictly greater key.
\<close>

fun max_by :: "('a \<Rightarrow> pyfloat) \<Rightarrow> 'a \<Rightarrow> 'a list \<Rightarrow> 'a" where
  "max_by f best [] = best"
| "max_by f best (x # xs) = max_by f (if fgt (f x) (f best) then x else best) xs"

text \<open>The Portuguese literals of the source, with their accented letters.\<close>

definition msg_no_data :: string where
  "msg_no_data = ''Nenhum dado dispon'' @ [CHR 0xED] @ ''vel''"

definition msg_no_data_residence :: string where
  "msg_no_data_residence = ''Nenhum dados dispon'' @ [CHR 0xED] @ ''vel''"

section \<open>The analytics object\<close>

text \<open>
  Records are dict objects: the state holds them in a heap, addressed by position, and
  \<^verbatim>\<open>self.data\<close> and \<^verbatim>\<open>self.processed_data\<close> are lists of addresses. An analysis takes
  the state and returns its result (a document, or the exception raised) with the
  state it leaves behind.
\<close>

record pystate =
  heap :: "pyrecord list"
  data :: "nat list"
  processed_data :: "nat list"

text \<open>\<^verbatim>\<open>RM4HealthAnalytics(data)\<close>: the caller's records, and a shallow copy of the list.\<close>

definition init :: "pyrecord list \<Rightarrow> pystate" where
  "init recs = \<lparr>heap = recs, data = [0..<length recs], processed_data = [0..<length recs]\<rparr>"

definition the_records :: "pystate \<Rightarrow> pyrecord list" where
  "the_records s = map (\<lambda>a. heap s ! a) (data s)"

text \<open>Every address held by the object is a dict of the heap.\<close>

definition wf_state :: "pystate \<Rightarrow> bool" where
  "wf_state s \<longleftrightarrow> list_all (\<lambda>a. a < length (heap s)) (data s @ processed_data s)"

text \<open>
  What the module takes from outside: the iteration order of \<^verbatim>\<open>list(set(xs))\<close>, which
  Python fixes per process only, and pandas' date parser and formatter. A timestamp
  is a number of nanoseconds; \<open>to_datetime v = None\<close> when pandas raises or hands back
  something that is not a \<^verbatim>\<open>Timestamp\<close>.
\<close>

record py_env =
  set_order :: "string list \<Rightarrow> string list"
  to_datetime :: "pyval \<Rightarrow> int option"
  strftime :: "int \<Rightarrow> string"

text \<open>An iteration order of a set lists each element once.\<close>

definition admissible_order :: "(string list \<Rightarrow> string list) \<Rightarrow> bool" where
  "admissible_order ord \<longleftrightarrow> (\<forall>xs. distinct (ord xs) \<and> set (ord xs) = set xs)"

section \<open>Longitudinal analysis\<close>

text \<open>\<^verbatim>\<open>'date' in key.lower()\<close>\<close>

fun ci_prefix :: "(char \<times> char) list \<Rightarrow> string \<Rightarrow> bool" where
  "ci_prefix [] s = True"
| "ci_prefix ((l, u) # ps) (c # cs) = ((c = l \<or> c = u) \<and> ci_prefix ps cs)"
| "ci_prefix _ [] = False"

fun ci_contains :: "(char \<times> char) list \<Rightarrow> string \<Rightarrow> bool" where
  "ci_contains ps [] = ci_prefix ps []"
| "ci_contains ps (c # cs) = (ci_prefix ps (c # cs) \<or> ci_contains ps cs)"

definition is_date_key :: "string \<Rightarrow> bool" where
  "is_date_key k = ci_contains (zip ''date'' ''DATE'') k"

definition day_ns :: int where
  "day_ns = 86400000000000"

definition get_date_range :: "py_env \<Rightarrow> pyrecord list \<Rightarrow> doc" where
  "get_date_range env records =
     (let dates = concat (map (\<lambda>r. List.map_filter
                     (\<lambda>(key, val). if is_date_key key \<and> truthy val then to_datetime env val else None) r)
                   records)
      in case dates of
           [] \<Rightarrow> DDict [(VStr ''start_date'', DVal VNone), (VStr ''end_date'', DVal VNone),
                        (VStr ''duration_days'', DInt 0)]
         | d # ds \<Rightarrow>
             (let lo = foldl min d ds; hi = foldl max d ds
              in DDict [(VStr ''start_date'', DStr (strftime env lo)),
                        (VStr ''end_date'', DStr (strftime env hi)),
                        (VStr ''duration_days'', DInt ((hi - lo) div day_ns))]))"

text \<open>
  \<^verbatim>\<open>isinstance(value, (int, float)) or (isinstance(value, str) and value.isdigit())\<close>
\<close>

fun is_numeric_candidate :: "pyval \<Rightarrow> bool" where
  "is_numeric_candidate (VInt i) = True"
| "is_numeric_candidate (VFloat r) = True"
| "is_numeric_candidate (VStr s) = str_isdigit s"
| "is_numeric_candidate VNone = False"

text \<open>The list \<^verbatim>\<open>numeric_fields\<close> as the first loop of \<^verbatim>\<open>_analyze_trends\<close> fills it.\<close>

definition discovered_fields :: "pyrecord list \<Rightarrow> string list" where
  "discovered_fields records =
     concat (map (\<lambda>r. map fst (filter (\<lambda>(key, val). is_numeric_candidate val) r)) records)"

text \<open>
  The values of one field: records that hold the field with a truthy value, converted
  by \<^verbatim>\<open>float\<close>, conversion failures skipped.
\<close>

definition trend_values :: "string \<Rightarrow> pyrecord list \<Rightarrow> pyfloat list" where
  "trend_values field records =
     List.map_filter
       (\<lambda>r. case map_of r field of
               None \<Rightarrow> None
             | Some v \<Rightarrow> if truthy v then try_float v else None)
       records"

definition trend_direction :: "pyfloat \<Rightarrow> pyfloat \<Rightarrow> string" where
  "trend_direction first lst = (if fgt lst first then ''increasing'' else ''decreasing'')"

definition change_percent :: "pyfloat \<Rightarrow> pyfloat \<Rightarrow> py_error + doc" where
  "change_percent first lst =
     (if fne first (Fin 0)
      then (case py_truediv (fsub lst first) first of
              Inl e \<Rightarrow> Inl e
            | Inr q \<Rightarrow> Inr (DFloat (fmul q (Fin 100))))
      else Inr (DInt 0))"

text \<open>The entry of one field, present when there are at least two values.\<close>

definition trend_entry :: "pyfloat list \<Rightarrow> py_error + doc option" where
  "trend_entry vals =
     (if length vals > 1
      then (case change_percent (hd vals) (last vals) of
              Inl e \<Rightarrow> Inl e
            | Inr c \<Rightarrow> Inr (Some (DDict
                [(VStr ''trend'', DStr (trend_direction (hd vals) (last vals))),
                 (VStr ''change_percent'', c),
                 (VStr ''values'', DList (map DFloat (take 10 vals)))])))
      else Inr None)"

fun trends_loop :: "pyrecord list \<Rightarrow> string list \<Rightarrow> (pyval \<times> doc) list
    \<Rightarrow> py_error + (pyval \<times> doc) list" where
  "trends_loop records [] trends = Inr trends"
| "trends_loop records (field # rest) trends =
     (case trend_entry (trend_values field records) of
        Inl e \<Rightarrow> Inl e
      | Inr None \<Rightarrow> trends_loop records rest trends
      | Inr (Some d) \<Rightarrow> trends_loop records rest (dict_set trends (VStr field) d))"

definition selected_fields :: "py_env \<Rightarrow> pyrecord list \<Rightarrow> string list" where
  "selected_fields env records = take 5 (set_order env (discovered_fields records))"

definition analyze_trends :: "py_env \<Rightarrow> pyrecord list \<Rightarrow> py_error + doc" where
  "analyze_trends env records =
     (case trends_loop records (selected_fields env records) [] of
        Inl e \<Rightarrow> Inl e
      | Inr trends \<Rightarrow> Inr (DDict trends))"

definition participant_analysis :: "py_env \<Rightarrow> pyval \<times> pyrecord list \<Rightarrow> py_error + doc" where
  "participant_analysis env g =
     (case g of (participant_id, records) \<Rightarrow>
        (let date_range = get_date_range env records
         in case analyze_trends env records of
              Inl e \<Rightarrow> Inl e
            | Inr trends \<Rightarrow> Inr (DDict
                [(VStr ''id'', DVal participant_id),
                 (VStr ''total_records'', DLen records),
                 (VStr ''date_range'', date_range),
                 (VStr ''trends'', trends)])))"

definition analyze_longitudinal_data :: "py_env \<Rightarrow> pystate \<Rightarrow> (py_error + doc) \<times> pystate" where
  "analyze_longitudinal_data env s =
     (if data s = []
      then (Inr (DDict [(VStr ''message'', DStr msg_no_data), (VStr ''participants'', DList [])]), s)
      else (let participant_data = group_by participant_key (the_records s)
            in (case map_err (participant_analysis env) participant_data of
                  Inl e \<Rightarrow> Inl e
                | Inr ps \<Rightarrow> Inr (DDict
                    [(VStr ''total_participants'', DLen participant_data),
                     (VStr ''participants'', DList ps)]),
                s)))"

section \<open>Healthcare utilization\<close>

definition healthcare_fields :: "string list" where
  "healthcare_fields =
     [''healthcare_visits'', ''emergency_visits'', ''hospitalizations'',
      ''specialist_visits'', ''primary_care_visits'', ''medication_changes'']"

text \<open>\<^verbatim>\<open>[record.get(field) for record in self.data if record.get(field)]\<close>\<close>

definition field_values :: "pyrecord list \<Rightarrow> string \<Rightarrow> pyval list" where
  "field_values records field =
     filter truthy (map (\<lambda>r. get_default r field VNone) records)"

text \<open>
  \<^verbatim>\<open>str(v).isdigit()\<close>: the text of a float always has a point, an exponent or letters,
  the text of a negative integer a sign, the text of \<^verbatim>\<open>None\<close> letters.
\<close>

fun str_of_isdigit :: "pyval \<Rightarrow> bool" where
  "str_of_isdigit (VInt i) = (0 \<le> i)"
| "str_of_isdigit (VFloat r) = False"
| "str_of_isdigit (VStr s) = str_isdigit s"
| "str_of_isdigit VNone = False"

definition utilization_average :: "pyval list \<Rightarrow> py_error + doc" where
  "utilization_average vals =
     (if list_ex str_of_isdigit vals
      then (case map_err py_float (filter str_of_isdigit vals) of
              Inl e \<Rightarrow> Inl e
            | Inr fs \<Rightarrow> Inr (DFloat (np_mean fs)))
      else Inr (DInt 0))"

definition utilization_entry :: "pyval list \<Rightarrow> py_error + doc" where
  "utilization_entry vals =
     (case utilization_average vals of
        Inl e \<Rightarrow> Inl e
      | Inr avg \<Rightarrow> Inr (DDict
          [(VStr ''count'', DLen vals),
           (VStr ''average'', avg),
           (VStr ''distribution'', counter_doc (counter vals))]))"

fun utilization_loop :: "pyrecord list \<Rightarrow> string list \<Rightarrow> (pyval \<times> doc) list
    \<Rightarrow> py_error + (pyval \<times> doc) list" where
  "utilization_loop records [] stats = Inr stats"
| "utilization_loop records (field # rest) stats =
     (let vals = field_values records field
      in if vals \<noteq> []
         then (case utilization_entry vals of
                 Inl e \<Rightarrow> Inl e
               | Inr d \<Rightarrow> utilization_loop records rest (dict_set stats (VStr field) d))
         else utilization_loop records rest stats)"

text \<open>\<^verbatim>\<open>stat.get('count', 0)\<close>, read as a number.\<close>

definition count_of :: "string \<Rightarrow> doc \<Rightarrow> int" where
  "count_of k d = (case doc_get d k of Some (DVal (VInt n)) \<Rightarrow> n | _ \<Rightarrow> 0)"

definition msg_no_utilization :: string where
  "msg_no_utilization =
     ''Nenhum dado de utiliza'' @ [CHR 0xE7, CHR 0xE3] @ ''o dispon'' @ [CHR 0xED] @ ''vel''"

definition summarize_utilization :: "(pyval \<times> doc) list \<Rightarrow> doc" where
  "summarize_utilization stats =
     (case stats of
        [] \<Rightarrow> DStr msg_no_utilization
      | st # sts \<Rightarrow>
          (let total_visits = sum_list (map (\<lambda>(k, d). count_of ''count'' d) stats);
               most_common = fst (max_by (\<lambda>(k, d). Fin (real_of_int (count_of ''count'' d))) st sts)
           in DFmt [FLit ''Total de '', FInt total_visits,
                    FLit ('' utiliza'' @ [CHR 0xE7, CHR 0xF5] @ ''es registradas. Mais comum: ''),
                    FVal most_common]))"

text \<open>\<^verbatim>\<open>r.get('participant_id', r.get('record_id'))\<close>\<close>

definition participant_or_none :: "pyrecord \<Rightarrow> pyval" where
  "participant_or_none r = get_default r ''participant_id'' (get_default r ''record_id'' VNone)"

definition analyze_healthcare_utilization :: "pystate \<Rightarrow> (py_error + doc) \<times> pystate" where
  "analyze_healthcare_utilization s =
     (if data s = []
      then (Inr (DDict [(VStr ''message'', DStr msg_no_data)]), s)
      else (let records = the_records s;
                total = count_distinct (map participant_or_none records)
            in (case utilization_loop records healthcare_fields [] of
                  Inl e \<Rightarrow> Inl e
                | Inr utilization_stats \<Rightarrow> Inr (DDict
                    [(VStr ''total_participants'', DInt (int total)),
                     (VStr ''utilization_stats'', DDict utilization_stats),
                     (VStr ''summary'', summarize_utilization utilization_stats)]),
                s)))"

section \<open>Domain extraction into fresh dicts\<close>

text \<open>
  \<^verbatim>\<open>sleep_record = {}\<close> allocates a dict; \<^verbatim>\<open>sleep_record[field] = record[field]\<close> and
  \<^verbatim>\<open>sleep_record['participant_id'] = ...\<close> write to it through its address.
\<close>

fun record_set :: "pyrecord \<Rightarrow> string \<Rightarrow> pyval \<Rightarrow> pyrecord" where
  "record_set [] k v = [(k, v)]"
| "record_set ((k', v') # r) k v = (if k' = k then (k', v) # r else (k', v') # record_set r k v)"

definition heap_alloc :: "pyrecord list \<Rightarrow> nat \<times> pyrecord list" where
  "heap_alloc h = (length h, h @ [[]])"

definition heap_store :: "pyrecord list \<Rightarrow> nat \<Rightarrow> string \<Rightarrow> pyval \<Rightarrow> pyrecord list" where
  "heap_store h a k v = h[a := record_set (h ! a) k v]"

fun copy_fields :: "string list \<Rightarrow> nat \<Rightarrow> nat \<Rightarrow> pyrecord list \<Rightarrow> pyrecord list" where
  "copy_fields [] src dst h = h"
| "copy_fields (field # rest) src dst h =
     copy_fields rest src dst
       (case map_of (h ! src) field of
          Some v \<Rightarrow> heap_store h dst field v
        | None \<Rightarrow> h)"

fun extract_domain :: "string list \<Rightarrow> nat list \<Rightarrow> pyrecord list \<Rightarrow> nat list
    \<Rightarrow> nat list \<times> pyrecord list" where
  "extract_domain names [] h acc = (acc, h)"
| "extract_domain names (a # as) h acc =
     (let (n, h1) = heap_alloc h;
          h2 = copy_fields names a n h1
      in if h2 ! n \<noteq> []
         then extract_domain names as
                (heap_store h2 n ''participant_id'' (participant_or_none (h2 ! a))) (acc @ [n])
         else extract_domain names as h2 acc)"

section \<open>Sleep patterns\<close>

definition sleep_fields :: "string list" where
  "sleep_fields =
     [''sleep_quality'', ''sleep_duration'', ''sleep_disturbances'',
      ''bedtime'', ''wake_time'', ''sleep_efficiency'']"

text \<open>
  The scores of one field: \<^verbatim>\<open>if field in record: try: xs.append(float(record[field]))\<close>
\<close>

definition float_scores :: "string \<Rightarrow> pyrecord list \<Rightarrow> pyfloat list" where
  "float_scores field records =
     List.map_filter
       (\<lambda>r. case map_of r field of None \<Rightarrow> None | Some v \<Rightarrow> try_float v)
       records"

definition analyze_sleep_quality :: "pyrecord list \<Rightarrow> py_error + doc" where
  "analyze_sleep_quality sleep_data =
     (let quality_scores = float_scores ''sleep_quality'' sleep_data
      in if quality_scores \<noteq> []
         then (case map_err py_int quality_scores of
                 Inl e \<Rightarrow> Inl e
               | Inr ints \<Rightarrow> Inr (DDict
                   [(VStr ''average'', DFloat (np_mean quality_scores)),
                    (VStr ''median'', DFloat (np_median quality_scores)),
                    (VStr ''distribution'', counter_doc (counter (map VInt ints)))]))
         else Inr (DDict [(VStr ''average'', DInt 0), (VStr ''median'', DInt 0),
                          (VStr ''distribution'', DDict [])]))"

text \<open>\<^verbatim>\<open>len([x for x in xs if p(x)]) / len(xs) * 100\<close> on a non-empty list.\<close>

definition percent_of :: "('a \<Rightarrow> bool) \<Rightarrow> 'a list \<Rightarrow> pyfloat" where
  "percent_of p xs = Fin (real (length (filter p xs)) / real (length xs) * 100)"

definition analyze_sleep_duration :: "pyrecord list \<Rightarrow> doc" where
  "analyze_sleep_duration sleep_data =
     (let durations = float_scores ''sleep_duration'' sleep_data
      in if durations \<noteq> []
         then DDict
           [(VStr ''average_hours'', DFloat (np_mean durations)),
            (VStr ''recommended_range'', DTuple [DInt 7, DInt 9]),
            (VStr ''within_range_percent'',
               DFloat (percent_of (\<lambda>d. fle (Fin 7) d \<and> fle d (Fin 9)) durations))]
         else DDict
           [(VStr ''average_hours'', DInt 0),
            (VStr ''recommended_range'', DTuple [DInt 7, DInt 9]),
            (VStr ''within_range_percent'', DInt 0)])"

definition identify_sleep_patterns :: "pyrecord list \<Rightarrow> doc" where
  "identify_sleep_patterns sleep_data =
     (let flag = DBool (length sleep_data > 5)
      in DDict [(VStr ''consistent_bedtime'', flag), (VStr ''regular_wake_time'', flag),
                (VStr ''adequate_duration'', flag)])"

text \<open>The dict \<^verbatim>\<open>analysis\<close> assembled from the extracted records.\<close>

definition sleep_analysis :: "pyrecord list \<Rightarrow> py_error + doc" where
  "sleep_analysis sleep_data =
     (case analyze_sleep_quality sleep_data of
        Inl e \<Rightarrow> Inl e
      | Inr quality \<Rightarrow> Inr (DDict
          [(VStr ''total_sleep_records'', DLen sleep_data),
           (VStr ''sleep_quality_stats'', quality),
           (VStr ''sleep_duration_stats'', analyze_sleep_duration sleep_data),
           (VStr ''patterns'', identify_sleep_patterns sleep_data)]))"

definition analyze_sleep_patterns :: "pystate \<Rightarrow> (py_error + doc) \<times> pystate" where
  "analyze_sleep_patterns s =
     (if data s = []
      then (Inr (DDict [(VStr ''message'', DStr msg_no_data)]), s)
      else (let (addrs, h) = extract_domain sleep_fields (data s) (heap s) [];
                sleep_data = map (\<lambda>a. h ! a) addrs
            in (sleep_analysis sleep_data, s\<lparr>heap := h\<rparr>)))"

section \<open>Medication adherence\<close>

definition medication_fields :: "string list" where
  "medication_fields =
     [''medication_adherence'', ''missed_doses'', ''medication_changes'',
      ''side_effects'', ''adherence_score'', ''medication_count'']"

definition calculate_adherence_stats :: "pyrecord list \<Rightarrow> doc" where
  "calculate_adherence_stats adherence_data =
     (let adherence_scores = float_scores ''adherence_score'' adherence_data
      in if adherence_scores \<noteq> []
         then DDict
           [(VStr ''average_adherence'', DFloat (np_mean adherence_scores)),
            (VStr ''high_adherence_percent'',
               DFloat (percent_of (\<lambda>x. fge x (Fin 80)) adherence_scores)),
            (VStr ''low_adherence_count'',
               DLen (filter (\<lambda>x. flt x (Fin 50)) adherence_scores))]
         else DDict
           [(VStr ''average_adherence'', DInt 0), (VStr ''high_adherence_percent'', DInt 0),
            (VStr ''low_adherence_count'', DInt 0)])"

text \<open>
  \<^verbatim>\<open>value > 0\<close> and \<^verbatim>\<open>value < 80\<close> on a raw record value: Python 3 orders numbers only;
  a string or \<^verbatim>\<open>None\<close> against an integer is a \<^verbatim>\<open>TypeError\<close>.
\<close>

fun py_gt_int :: "pyval \<Rightarrow> int \<Rightarrow> py_error + bool" where
  "py_gt_int (VInt i) n = Inr (i > n)"
| "py_gt_int (VFloat r) n = Inr (r > real_of_int n)"
| "py_gt_int _ n = Inl TypeError"

fun py_lt_int :: "pyval \<Rightarrow> int \<Rightarrow> py_error + bool" where
  "py_lt_int (VInt i) n = Inr (i < n)"
| "py_lt_int (VFloat r) n = Inr (r < real_of_int n)"
| "py_lt_int _ n = Inl TypeError"

definition count_true :: "bool list \<Rightarrow> int" where
  "count_true bs = int (length (filter id bs))"

definition identify_adherence_risks :: "pyrecord list \<Rightarrow> py_error + doc" where
  "identify_adherence_risks adherence_data =
     (case map_err (\<lambda>r. py_gt_int (get_default r ''missed_doses'' (VInt 0)) 0) adherence_data of
        Inl e \<Rightarrow> Inl e
      | Inr missed \<Rightarrow>
          (let missed_doses_count = count_true missed;
               risks1 = (if missed_doses_count > 0
                         then [DFmt [FInt missed_doses_count, FLit '' participantes com doses perdidas'']]
                         else []);
               side_effects_count = int (length (filter
                   (\<lambda>r. truthy (get_default r ''side_effects'' VNone)) adherence_data));
               risks2 = (if side_effects_count > 0
                         then [DFmt [FInt side_effects_count,
                                     FLit '' participantes relataram efeitos colaterais'']]
                         else [])
           in Inr (DList (risks1 @ risks2))))"

definition base_recommendations :: "doc list" where
  "base_recommendations =
     [DStr (''Implementar lembretes de medica'' @ [CHR 0xE7, CHR 0xE3] @ ''o''),
      DStr (''Monitoramento regular da ades'' @ [CHR 0xE3] @ ''o''),
      DStr (''Educa'' @ [CHR 0xE7, CHR 0xE3] @ ''o sobre import'' @ [CHR 0xE2] @ ''ncia do tratamento'')]"

definition generate_adherence_recommendations :: "pyrecord list \<Rightarrow> py_error + doc" where
  "generate_adherence_recommendations adherence_data =
     (if length adherence_data > 0
      then (case map_err (\<lambda>r. py_lt_int (get_default r ''adherence_score'' (VInt 100)) 80)
                   adherence_data of
              Inl e \<Rightarrow> Inl e
            | Inr lows \<Rightarrow>
                (let low_adherence = count_true lows
                 in Inr (DList (base_recommendations @
                      (if low_adherence > 0
                       then [DFmt [FLit ''Foco especial em '', FInt low_adherence,
                                   FLit ('' participantes com baixa ades'' @ [CHR 0xE3] @ ''o'')]]
                       else [])))))
      else Inr (DList base_recommendations))"

text \<open>The dict \<^verbatim>\<open>analysis\<close> assembled from the extracted records.\<close>

definition medication_analysis :: "pyrecord list \<Rightarrow> py_error + doc" where
  "medication_analysis adherence_data =
     (case identify_adherence_risks adherence_data of
        Inl e \<Rightarrow> Inl e
      | Inr risks \<Rightarrow>
          (case generate_adherence_recommendations adherence_data of
             Inl e \<Rightarrow> Inl e
           | Inr recs \<Rightarrow> Inr (DDict
               [(VStr ''total_medication_records'', DLen adherence_data),
                (VStr ''adherence_stats'', calculate_adherence_stats adherence_data),
                (VStr ''risk_factors'', risks),
                (VStr ''recommendations'', recs)])))"

definition analyze_medication_adherence :: "pystate \<Rightarrow> (py_error + doc) \<times> pystate" where
  "analyze_medication_adherence s =
     (if data s = []
      then (Inr (DDict [(VStr ''message'', DStr msg_no_data)]), s)
      else (let (addrs, h) = extract_domain medication_fields (data s) (heap s) [];
                adherence_data = map (\<lambda>a. h ! a) addrs
            in (medication_analysis adherence_data, s\<lparr>heap := h\<rparr>)))"

section \<open>Residence comparison\<close>

text \<open>\<^verbatim>\<open>[r.get(field, 0) for r in records if r.get(field)]\<close>\<close>

definition truthy_values :: "string \<Rightarrow> pyval \<Rightarrow> pyrecord list \<Rightarrow> pyval list" where
  "truthy_values field dflt records =
     map (\<lambda>r. get_default r field dflt)
       (filter (\<lambda>r. truthy (get_default r field VNone)) records)"

definition calculate_residence_metrics :: "pyrecord list \<Rightarrow> py_error + doc" where
  "calculate_residence_metrics records =
     (let health_scores = truthy_values ''health_score'' (VInt 0) records
      in case (if health_scores \<noteq> []
               then map_sum id DFloat (np_mean_raw health_scores)
               else Inr (DInt 0)) of
           Inl e \<Rightarrow> Inl e
         | Inr avg \<Rightarrow> Inr (DDict
             [(VStr ''health_score_avg'', avg),
              (VStr ''satisfaction_avg'', DInt 0),
              (VStr ''activity_level_avg'', DInt 0)]))"

definition analyze_residence_demographics :: "pyrecord list \<Rightarrow> py_error + doc" where
  "analyze_residence_demographics records =
     (let ages = truthy_values ''age'' (VInt 0) records;
          genders = truthy_values ''gender'' (VStr ''unknown'') records
      in case (if ages \<noteq> [] then map_sum id DFloat (np_mean_raw ages) else Inr (DInt 0)) of
           Inl e \<Rightarrow> Inl e
         | Inr avg \<Rightarrow> Inr (DDict
             [(VStr ''average_age'', avg),
              (VStr ''gender_distribution'', counter_doc (counter genders)),
              (VStr ''total_participants'', DLen records)]))"

text \<open>
  \<^verbatim>\<open>comparison[k].get('health_metrics', {}).get('health_score_avg', 0)\<close>, as a number.
\<close>

definition health_score_of :: "doc \<Rightarrow> pyfloat" where
  "health_score_of d =
     (case doc_get d ''health_metrics'' of
        None \<Rightarrow> Fin 0
      | Some m \<Rightarrow>
          (case doc_get m ''health_score_avg'' of
             Some (DFloat f) \<Rightarrow> f
           | Some (DVal v) \<Rightarrow> num_of v
           | _ \<Rightarrow> Fin 0))"

definition generate_residence_insights :: "(pyval \<times> doc) list \<Rightarrow> doc" where
  "generate_residence_insights comparison =
     (if length comparison > 1
      then (let best_residence =
                  fst (max_by (\<lambda>(k, d). health_score_of d) (hd comparison) (tl comparison));
                total_participants =
                  sum_list (map (\<lambda>(k, d). count_of ''participant_count'' d) comparison)
            in DList
              [DFmt [FLit (''Melhor performance de sa'' @ [CHR 0xFA] @ ''de: ''), FVal best_residence],
               DFmt [FLit ''Total de '', FInt total_participants,
                     FLit ('' participantes distribu'' @ [CHR 0xED] @ ''dos entre ''),
                     FInt (int (length comparison)),
                     FLit ('' resid'' @ [CHR 0xEA] @ ''ncias'')]])
      else DList [])"

definition residence_entry :: "pyrecord list \<Rightarrow> py_error + doc" where
  "residence_entry records =
     (case calculate_residence_metrics records of
        Inl e \<Rightarrow> Inl e
      | Inr metrics \<Rightarrow>
          (case analyze_residence_demographics records of
             Inl e \<Rightarrow> Inl e
           | Inr demo \<Rightarrow> Inr (DDict
               [(VStr ''participant_count'', DLen records),
                (VStr ''health_metrics'', metrics),
                (VStr ''demographics'', demo)])))"

fun comparison_loop :: "(pyval \<times> pyrecord list) list \<Rightarrow> (pyval \<times> doc) list
    \<Rightarrow> py_error + (pyval \<times> doc) list" where
  "comparison_loop [] comparison = Inr comparison"
| "comparison_loop ((residence, records) # gs) comparison =
     (case residence_entry records of
        Inl e \<Rightarrow> Inl e
      | Inr d \<Rightarrow> comparison_loop gs (dict_set comparison residence d))"

definition analyze_residence_comparison :: "pystate \<Rightarrow> (py_error + doc) \<times> pystate" where
  "analyze_residence_comparison s =
     (if data s = []
      then (Inr (DDict [(VStr ''message'', DStr msg_no_data_residence)]), s)
      else (let residence_data = group_by residence_key (the_records s)
            in (case comparison_loop residence_data [] of
                  Inl e \<Rightarrow> Inl e
                | Inr comparison \<Rightarrow> Inr (DDict
                    [(VStr ''total_residences'', DLen residence_data),
                     (VStr ''comparison'', DDict comparison),
                     (VStr ''insights'', generate_residence_insights comparison)]),
                s)))"

section \<open>Notions used in the statements\<close>

text \<open>No two keys of a dict are equal.\<close>

fun keys_apart :: "pyval list \<Rightarrow> bool" where
  "keys_apart [] = True"
| "keys_apart (k # ks) = ((\<forall>k' \<in> set ks. \<not> py_eq k k') \<and> keys_apart ks)"

text \<open>Three records: one with a participant id, one with a record id only, one with neither.\<close>

definition three_records :: "pyrecord list" where
  "three_records =
     [[(''participant_id'', VStr ''P1''), (''residence_type'', VStr ''urban'')],
      [(''record_id'', VInt 2), (''location'', VStr ''rural'')],
      [(''age'', VInt 70)]]"

text \<open>
  An environment for examples: sets iterate in order of first insertion, and no value
  is a date. A second one iterates sets in the opposite order.
\<close>

definition plain_env :: py_env where
  "plain_env = \<lparr>set_order = remdups, to_datetime = (\<lambda>v. None), strftime = (\<lambda>t. [])\<rparr>"

definition reverse_env :: py_env where
  "reverse_env = \<lparr>set_order = (\<lambda>xs. rev (remdups xs)), to_datetime = (\<lambda>v. None),
     strftime = (\<lambda>t. [])\<rparr>"

text \<open>Following a path of string keys into a result.\<close>

fun doc_path :: "doc \<Rightarrow> string list \<Rightarrow> doc option" where
  "doc_path d [] = Some d"
| "doc_path d (k # ks) = (case doc_get d k of None \<Rightarrow> None | Some d' \<Rightarrow> doc_path d' ks)"

definition result_path :: "py_error + doc \<Rightarrow> string list \<Rightarrow> doc option" where
  "result_path r ks = (case r of Inl e \<Rightarrow> None | Inr d \<Rightarrow> doc_path d ks)"

definition result_keys :: "py_error + doc \<Rightarrow> py_error + pyval list" where
  "result_keys r = map_sum id doc_keys r"

text \<open>
  Four records: one field holds \<^verbatim>\<open>"12"\<close>, \<^verbatim>\<open>"abc"\<close> and \<^verbatim>\<open>7.5\<close>, the fourth record
  lacks it.
\<close>

definition mixed_records :: "string \<Rightarrow> pyrecord list" where
  "mixed_records field =
     [[(field, VStr ''12'')], [(field, VStr ''abc'')], [(field, VFloat (15 / 2))],
      [(''participant_id'', VStr ''P4'')]]"

text \<open>Two records with six numeric fields each.\<close>

definition six_field_records :: "pyrecord list" where
  "six_field_records =
     [[(''a'', VInt 1), (''b'', VInt 1), (''c'', VInt 1), (''d'', VInt 1), (''e'', VInt 1),
       (''f'', VInt 1)],
      [(''a'', VInt 2), (''b'', VInt 2), (''c'', VInt 2), (''d'', VInt 2), (''e'', VInt 2),
       (''f'', VInt 2)]]"

text \<open>A record without the listed fields whose value is falsy.\<close>

definition drop_falsy :: "string list \<Rightarrow> pyrecord \<Rightarrow> pyrecord" where
  "drop_falsy names r =
     filter (\<lambda>(k, v). \<not> (k \<in> set names \<and> \<not> truthy (get_default r k VNone))) r"

text \<open>
  What the extraction loop computes for one record, as a value: the allow-listed
  fields the record has, then the participant key; nothing when it has none of them.
\<close>

definition copied_fields :: "string list \<Rightarrow> pyrecord \<Rightarrow> pyrecord \<Rightarrow> pyrecord" where
  "copied_fields names r d =
     foldl (\<lambda>d field. case map_of r field of Some v \<Rightarrow> record_set d field v | None \<Rightarrow> d) d names"

definition extract_record :: "string list \<Rightarrow> pyrecord \<Rightarrow> pyrecord option" where
  "extract_record names r =
     (let d = copied_fields names r []
      in if d \<noteq> [] then Some (record_set d ''participant_id'' (participant_or_none r)) else None)"

definition extracted :: "string list \<Rightarrow> pyrecord list \<Rightarrow> pyrecord list" where
  "extracted names records = List.map_filter (extract_record names) records"

text \<open>The trend entry of a field with at least two values, and the fields that get one.\<close>

definition trend_of :: "pyfloat list \<Rightarrow> doc" where
  "trend_of vals = DDict
     [(VStr ''trend'', DStr (trend_direction (hd vals) (last vals))),
      (VStr ''change_percent'',
         if hd vals \<noteq> Fin 0
         then DFloat (fmul (fdiv (fsub (last vals) (hd vals)) (hd vals)) (Fin 100))
         else DInt 0),
      (VStr ''values'', DList (map DFloat (take 10 vals)))]"

definition has_trend :: "pyrecord list \<Rightarrow> string \<Rightarrow> bool" where
  "has_trend records field \<longleftrightarrow> 1 < length (trend_values field records)"

text \<open>Two records whose field \<^verbatim>\<open>x\<close> holds \<^verbatim>\<open>"0"\<close> and then \<^verbatim>\<open>"10"\<close>.\<close>

definition zero_ten_records :: "pyrecord list" where
  "zero_ten_records = [[(''x'', VStr ''0'')], [(''x'', VStr ''10'')]]"

text \<open>Records with a zero and an empty string where a count, a score and an age go.\<close>

definition zero_visit_records :: "pyrecord list" where
  "zero_visit_records =
     [[(''healthcare_visits'', VInt 0), (''health_score'', VInt 0), (''age'', VInt 0)],
      [(''healthcare_visits'', VStr []), (''health_score'', VInt 80), (''age'', VInt 70)],
      [(''healthcare_visits'', VInt 3)]]"

text \<open>Two records of one residence.\<close>

definition urban_records :: "pyrecord list" where
  "urban_records =
     [[(''residence_type'', VStr ''urban''), (''health_score'', VInt 80)],
      [(''residence_type'', VStr ''urban''), (''age'', VInt 70)]]"

text \<open>An entry of the comparison dict belongs to a group: same key, built from its records.\<close>

definition entry_of :: "pyval \<times> pyrecord list \<Rightarrow> pyval \<times> doc \<Rightarrow> bool" where
  "entry_of g e \<longleftrightarrow> fst e = fst g \<and> residence_entry (snd g) = Inr (snd e)"

text \<open>
  A later state extends an earlier one: the object's two lists are the same and every
  dict of the earlier heap is still there, unchanged, at its address.
\<close>

definition extends :: "pystate \<Rightarrow> pystate \<Rightarrow> bool" where
  "extends s s' \<longleftrightarrow>
     data s' = data s \<and> processed_data s' = processed_data s
     \<and> length (heap s) \<le> length (heap s') \<and> take (length (heap s)) (heap s') = heap s"

text \<open>The five public analyses.\<close>

definition analyses :: "py_env \<Rightarrow> (pystate \<Rightarrow> (py_error + doc) \<times> pystate) list" where
  "analyses env =
     [analyze_longitudinal_data env, analyze_healthcare_utilization, analyze_sleep_patterns,
      analyze_medication_adherence, analyze_residence_comparison]"

section \<open>The grouping stage partitions its input\<close>

lemma py_eq_refl: "py_eq k k"
  by (cases k) simp_all

lemma py_eq_sym: "py_eq a b \<Longrightarrow> py_eq b a"
  by (cases a; cases b) simp_all

lemma py_eq_trans: "py_eq a b \<Longrightarrow> py_eq b c \<Longrightarrow> py_eq a c"
  by (cases a; cases b; cases c) simp_all

lemma keys_apart_snoc:
  "keys_apart (ks @ [k]) \<longleftrightarrow> keys_apart ks \<and> (\<forall>k' \<in> set ks. \<not> py_eq k' k)"
  by (induction ks) auto

lemma group_append_keys:
  "map fst (group_append gs k r) =
     (if \<exists>k' \<in> set (map fst gs). py_eq k' k then map fst gs else map fst gs @ [k])"
  by (induction gs k r rule: group_append.induct) auto

lemma group_append_apart:
  "keys_apart (map fst gs) \<Longrightarrow> keys_apart (map fst (group_append gs k r))"
  by (simp add: group_append_keys keys_apart_snoc)

lemma group_append_set:
  "keys_apart (map fst gs) \<Longrightarrow>
   set (group_append gs k r) =
     (if \<exists>k' \<in> set (map fst gs). py_eq k' k
      then (\<lambda>(k', rs). (k', if py_eq k' k then rs @ [r] else rs)) ` set gs
      else insert (k, [r]) (set gs))"
proof (induction gs k r rule: group_append.induct)
  case (1 k r)
  then show ?case by simp
next
  case (2 k' rs gs k r)
  show ?case
  proof (cases "py_eq k' k")
    case True
    have "\<forall>(k'', rs'') \<in> set gs. \<not> py_eq k'' k"
    proof (clarify)
      fix a b assume ab: "(a, b) \<in> set gs" and e: "py_eq a k"
      from True e have "py_eq k' a" using py_eq_sym py_eq_trans by blast
      moreover from 2(2) ab have "\<not> py_eq k' a" by force
      ultimately show False by simp
    qed
    then have "(\<lambda>(k', rs). (k', if py_eq k' k then rs @ [r] else rs)) ` set gs = set gs"
      by (force simp: image_iff)
    with True show ?thesis by simp
  next
    case False
    with 2 show ?thesis by auto
  qed
qed


lemma group_append_mset:
  "mset (concat (map snd (group_append gs k r))) = add_mset r (mset (concat (map snd gs)))"
  by (induction gs k r rule: group_append.induct) auto

lemma group_by_snoc:
  "group_by keyf (recs @ [r]) = group_append (group_by keyf recs) (keyf r) r"
  by (simp add: group_by_def)

lemma group_by_mset: "mset (concat (map snd (group_by keyf recs))) = mset recs"
proof (induction recs rule: rev_induct)
  case Nil
  show ?case by (simp add: group_by_def)
next
  case (snoc r recs)
  then show ?case by (simp add: group_by_snoc group_append_mset)
qed

lemma group_by_apart: "keys_apart (map fst (group_by keyf recs))"
proof (induction recs rule: rev_induct)
  case Nil
  show ?case by (simp add: group_by_def)
next
  case (snoc r recs)
  then show ?case by (simp only: group_by_snoc group_append_apart)
qed

lemma group_by_covers:
  "r \<in> set recs \<Longrightarrow> \<exists>k \<in> set (map fst (group_by keyf recs)). py_eq k (keyf r)"
proof (induction recs rule: rev_induct)
  case Nil
  then show ?case by simp
next
  case (snoc x recs)
  show ?case
  proof (cases "r = x")
    case True
    then show ?thesis
      by (auto simp: group_by_snoc group_append_keys py_eq_refl)
  next
    case False
    with snoc obtain k where "k \<in> set (map fst (group_by keyf recs))" "py_eq k (keyf r)"
      by auto
    then show ?thesis
      by (auto simp: group_by_snoc group_append_keys)
  qed
qed

lemma group_by_filter:
  "(k, rs) \<in> set (group_by keyf recs) \<Longrightarrow>
     rs \<noteq> [] \<and> rs = filter (\<lambda>r. py_eq k (keyf r)) recs"
proof (induction recs arbitrary: k rs rule: rev_induct)
  case Nil
  then show ?case by (simp add: group_by_def)
next
  case (snoc x recs)
  let ?G = "group_by keyf recs"
  have apart: "keys_apart (map fst ?G)" by (rule group_by_apart)
  show ?case
  proof (cases "\<exists>k' \<in> set (map fst ?G). py_eq k' (keyf x)")
    case True
    with snoc.prems obtain rs0 where
      old: "(k, rs0) \<in> set ?G" and rs: "rs = (if py_eq k (keyf x) then rs0 @ [x] else rs0)"
      by (auto simp: group_by_snoc group_append_set [OF apart])
    from snoc.IH [OF old] rs show ?thesis by auto
  next
    case False
    with snoc.prems have "(k, rs) = (keyf x, [x]) \<or> (k, rs) \<in> set ?G"
      by (auto simp: group_by_snoc group_append_set [OF apart])
    then show ?thesis
    proof
      assume new: "(k, rs) = (keyf x, [x])"
      have "filter (\<lambda>r. py_eq k (keyf r)) recs = []"
      proof (rule ccontr)
        assume "filter (\<lambda>r. py_eq k (keyf r)) recs \<noteq> []"
        then obtain y where y: "y \<in> set recs" "py_eq k (keyf y)"
          by (auto simp: filter_empty_conv)
        from group_by_covers [OF y(1)] obtain k' where
          k': "k' \<in> set (map fst ?G)" "py_eq k' (keyf y)" by blast
        from y(2) new have "py_eq (keyf x) (keyf y)" by simp
        with k'(2) have "py_eq k' (keyf x)" using py_eq_sym py_eq_trans by blast
        with False k'(1) show False by blast
      qed
      with new show ?thesis by (simp add: py_eq_refl)
    next
      assume old: "(k, rs) \<in> set ?G"
      with False have "\<not> py_eq k (keyf x)" by force
      from snoc.IH [OF old] have "rs \<noteq> []" and "rs = filter (\<lambda>r. py_eq k (keyf r)) recs"
        by blast+
      with \<open>\<not> py_eq k (keyf x)\<close> show ?thesis by simp
    qed
  qed
qed

lemma keys_apart_unique:
  "keys_apart (map fst gs) \<Longrightarrow> (k1, rs1) \<in> set gs \<Longrightarrow> (k2, rs2) \<in> set gs \<Longrightarrow>
     py_eq k1 k2 \<Longrightarrow> (k1, rs1) = (k2, rs2)"
proof (induction gs)
  case Nil
  then show ?case by simp
next
  case (Cons g gs)
  obtain k rs where g: "g = (k, rs)" by (cases g)
  from Cons.prems(1) g have far: "\<forall>p \<in> set gs. \<not> py_eq k (fst p)" and rest: "keys_apart (map fst gs)"
    by auto
  consider "(k1, rs1) = g" "(k2, rs2) = g" | "(k1, rs1) = g" "(k2, rs2) \<in> set gs"
    | "(k1, rs1) \<in> set gs" "(k2, rs2) = g" | "(k1, rs1) \<in> set gs" "(k2, rs2) \<in> set gs"
    using Cons.prems(2,3) by auto
  then show ?case
  proof cases
    case 1
    then show ?thesis by simp
  next
    case 2
    with far g Cons.prems(4) show ?thesis by force
  next
    case 3
    with far g py_eq_sym [OF Cons.prems(4)] show ?thesis by force
  next
    case 4
    with Cons.IH rest Cons.prems(4) show ?thesis by blast
  qed
qed

lemma group_by_one_group:
  assumes "r \<in> set recs"
  shows "\<exists>!g. g \<in> set (group_by keyf recs) \<and> r \<in> set (snd g)"
proof -
  let ?G = "group_by keyf recs"
  from group_by_covers [OF assms, of keyf] obtain k rs where
    g1: "(k, rs) \<in> set ?G" and g2: "py_eq k (keyf r)"
    by auto
  define g where "g = (k, rs)"
  have krs: "g = (k, rs)" by (simp add: g_def)
  have g: "g \<in> set ?G" "py_eq (fst g) (keyf r)" using g1 g2 by (simp_all add: g_def)
  from g1 g2 group_by_filter [of k rs keyf recs] assms have "r \<in> set rs" by simp
  with krs g(1) have ex: "g \<in> set ?G \<and> r \<in> set (snd g)" by simp
  have "g' = g" if g': "g' \<in> set ?G \<and> r \<in> set (snd g')" for g'
  proof -
    obtain k' rs' where krs': "g' = (k', rs')" by (cases g')
    with g' group_by_filter [of k' rs' keyf recs] have "py_eq k' (keyf r)" by auto
    moreover from g(2) krs have "py_eq k (keyf r)" by simp
    ultimately have "py_eq k' k" using py_eq_sym py_eq_trans by blast
    from keys_apart_unique [OF group_by_apart _ _ this, of rs' keyf recs rs] g' krs' g(1) krs
    show ?thesis by simp
  qed
  with ex show ?thesis by blast
qed

lemma get_default_absent: "map_of r k = None \<Longrightarrow> get_default r k d = d"
  by (simp add: get_default_def)

text \<open>
  Claim C4. For a non-empty record collection and either grouping criterion, the
  groups are an exact partition of the input: the groups together hold the input
  records, each as often as the input does; every record lies in exactly one group;
  a group is non-empty and holds, in input order, the records whose key equals the
  group's key; no two groups have equal keys; and a record with neither candidate key
  field has the key \<^verbatim>\<open>'unknown'\<close>.
\<close>

theorem grouping_is_exact_partition:
  assumes "recs \<noteq> []" and "keyf = participant_key \<or> keyf = residence_key"
  shows "mset (concat (map snd (group_by keyf recs))) = mset recs
       \<and> (\<forall>r \<in> set recs. \<exists>!g. g \<in> set (group_by keyf recs) \<and> r \<in> set (snd g))
       \<and> (\<forall>(k, rs) \<in> set (group_by keyf recs).
            rs \<noteq> [] \<and> rs = filter (\<lambda>r. py_eq k (keyf r)) recs)
       \<and> keys_apart (map fst (group_by keyf recs))
       \<and> group_by keyf recs \<noteq> []
       \<and> (\<forall>r. map_of r ''participant_id'' = None \<and> map_of r ''record_id'' = None
              \<longrightarrow> participant_key r = VStr ''unknown'')
       \<and> (\<forall>r. map_of r ''residence_type'' = None \<and> map_of r ''location'' = None
              \<longrightarrow> residence_key r = VStr ''unknown'')"
proof -
  have "group_by keyf recs \<noteq> []"
  proof
    assume "group_by keyf recs = []"
    then have "mset (concat (map snd (group_by keyf recs))) = {#}" by simp
    with assms(1) show False by (simp add: group_by_mset)
  qed
  moreover have "\<forall>(k, rs) \<in> set (group_by keyf recs).
      rs \<noteq> [] \<and> rs = filter (\<lambda>r. py_eq k (keyf r)) recs"
    using group_by_filter [of _ _ keyf recs] by blast
  moreover have "\<forall>r \<in> set recs. \<exists>!g. g \<in> set (group_by keyf recs) \<and> r \<in> set (snd g)"
    using group_by_one_group [of _ recs keyf] by blast
  ultimately show ?thesis
    by (simp add: group_by_mset group_by_apart participant_key_def residence_key_def
        get_default_absent)
qed

theorem grouping_is_exact_partition_witness:
  "three_records \<noteq> []
   \<and> mset (concat (map snd (group_by participant_key three_records))) = mset three_records
   \<and> keys_apart (map fst (group_by participant_key three_records))
   \<and> map fst (group_by participant_key three_records) = [VStr ''P1'', VInt 2, VStr ''unknown'']"
proof -
  have h: "three_records \<noteq> []" by (simp add: three_records_def)
  have k: "participant_key = participant_key \<or> participant_key = residence_key" by simp
  have "map fst (group_by participant_key three_records) = [VStr ''P1'', VInt 2, VStr ''unknown'']"
    by (simp add: three_records_def group_by_def participant_key_def get_default_def)
  with h grouping_is_exact_partition [OF h k] show ?thesis by simp
qed

section \<open>The empty collection\<close>

text \<open>
  Claim C2, as the code has it. On the empty record collection each analysis returns
  its sentinel document: utilization, sleep and medication return exactly the key
  \<^verbatim>\<open>message\<close> with the text \<^verbatim>\<open>Nenhum dado disponivel\<close> (with its accent); residence
  comparison returns exactly the key \<^verbatim>\<open>message\<close>; the longitudinal analysis returns
  that message together with a second key, \<^verbatim>\<open>participants\<close>, bound to the empty list.
\<close>

theorem empty_collection_sentinels:
  "fst (analyze_healthcare_utilization (init [])) =
     Inr (DDict [(VStr ''message'', DStr msg_no_data)])
   \<and> fst (analyze_sleep_patterns (init [])) =
     Inr (DDict [(VStr ''message'', DStr msg_no_data)])
   \<and> fst (analyze_medication_adherence (init [])) =
     Inr (DDict [(VStr ''message'', DStr msg_no_data)])
   \<and> result_keys (fst (analyze_residence_comparison (init []))) = Inr [VStr ''message'']
   \<and> fst (analyze_longitudinal_data env (init [])) =
     Inr (DDict [(VStr ''message'', DStr msg_no_data), (VStr ''participants'', DList [])])"
  by (simp add: init_def analyze_healthcare_utilization_def analyze_sleep_patterns_def
      analyze_medication_adherence_def analyze_residence_comparison_def
      analyze_longitudinal_data_def result_keys_def)

text \<open>
  The longitudinal sentinel has two keys, so "exactly one key" fails for it.
\<close>

theorem longitudinal_sentinel_has_two_keys:
  "result_keys (fst (analyze_longitudinal_data plain_env (init []))) =
     Inr [VStr ''message'', VStr ''participants'']"
  by (simp add: init_def analyze_longitudinal_data_def result_keys_def)

section \<open>Values that are not numbers\<close>

text \<open>
  Claim C1 at three inputs a forms backend delivers, where every answer is a string.
  \<^verbatim>\<open>_identify_adherence_risks\<close> compares the raw \<^verbatim>\<open>missed_doses\<close> with \<^verbatim>\<open>0\<close>,
  \<^verbatim>\<open>_generate_adherence_recommendations\<close> compares the raw \<^verbatim>\<open>adherence_score\<close> with
  \<^verbatim>\<open>80\<close>, and \<^verbatim>\<open>_calculate_residence_metrics\<close> hands the raw \<^verbatim>\<open>health_score\<close> values
  to \<^verbatim>\<open>np.mean\<close>: each raises \<^verbatim>\<open>TypeError\<close> instead of returning a document.
\<close>

theorem string_values_raise_type_error:
  "fst (analyze_medication_adherence (init [[(''missed_doses'', VStr ''2'')]])) = Inl TypeError
   \<and> fst (analyze_medication_adherence (init [[(''adherence_score'', VStr ''75'')]])) = Inl TypeError
   \<and> fst (analyze_residence_comparison (init [[(''health_score'', VStr ''75'')]])) = Inl TypeError"
  by code_simp

section \<open>Mixed values in one field\<close>

text \<open>
  Claim C3, as the code has it, for a field holding \<^verbatim>\<open>"12"\<close>, \<^verbatim>\<open>"abc"\<close>, \<^verbatim>\<open>7.5\<close> and one
  missing value. Sleep quality: the coerced scores are exactly \<^verbatim>\<open>[12, 7.5]\<close>, mean and
  median are both 9.75, and the distribution counts the integer parts of the coerced
  scores, 12 and 7. Utilization: three values are present and counted, the average is
  taken over the values whose text is all digits (12 alone), and the distribution
  counts the three present raw values, \<^verbatim>\<open>"abc"\<close> among them.
\<close>

theorem mixed_field_statistics:
  "float_scores ''sleep_quality'' (mixed_records ''sleep_quality'') = [Fin 12, Fin (15 / 2)]
   \<and> result_path (fst (analyze_sleep_patterns (init (mixed_records ''sleep_quality''))))
       [''sleep_quality_stats''] =
     Some (DDict [(VStr ''average'', DFloat (Fin (39 / 4))),
                  (VStr ''median'', DFloat (Fin (39 / 4))),
                  (VStr ''distribution'', DDict [(VInt 12, DInt 1), (VInt 7, DInt 1)])])
   \<and> result_path (fst (analyze_healthcare_utilization (init (mixed_records ''healthcare_visits''))))
       [''utilization_stats'', ''healthcare_visits''] =
     Some (DDict [(VStr ''count'', DInt 3),
                  (VStr ''average'', DFloat (Fin 12)),
                  (VStr ''distribution'',
                     DDict [(VStr ''12'', DInt 1), (VStr ''abc'', DInt 1),
                            (VFloat (15 / 2), DInt 1)])])"
  by code_simp

text \<open>
  The utilization average is 12, not the mean 9.75 of \<^verbatim>\<open>[12, 7.5]\<close>, and the sleep
  distribution has two entries, neither of them \<^verbatim>\<open>"abc"\<close>.
\<close>

theorem mixed_field_claim_fails:
  "result_path (fst (analyze_healthcare_utilization (init (mixed_records ''healthcare_visits''))))
       [''utilization_stats'', ''healthcare_visits'', ''average''] = Some (DFloat (Fin 12))
   \<and> np_mean [Fin 12, Fin (15 / 2)] = Fin (39 / 4)
   \<and> result_path (fst (analyze_sleep_patterns (init (mixed_records ''sleep_quality''))))
       [''sleep_quality_stats'', ''distribution''] =
     Some (DDict [(VInt 12, DInt 1), (VInt 7, DInt 1)])"
  by code_simp

section \<open>Trend analysis\<close>

lemma fne_zero: "fne a (Fin 0) \<longleftrightarrow> a \<noteq> Fin 0"
  by (cases a) (simp_all add: fne_def)

lemma change_percent_ok:
  "change_percent first lst =
     Inr (if first \<noteq> Fin 0 then DFloat (fmul (fdiv (fsub lst first) first) (Fin 100)) else DInt 0)"
  by (simp add: change_percent_def fne_zero py_truediv_def)

lemma trend_entry_ok:
  "trend_entry vals =
     Inr (if length vals > 1
          then Some (DDict
                [(VStr ''trend'', DStr (trend_direction (hd vals) (last vals))),
                 (VStr ''change_percent'',
                    if hd vals \<noteq> Fin 0
                    then DFloat (fmul (fdiv (fsub (last vals) (hd vals)) (hd vals)) (Fin 100))
                    else DInt 0),
                 (VStr ''values'', DList (map DFloat (take 10 vals)))])
          else None)"
  by (simp add: trend_entry_def change_percent_ok)

lemma trend_entry_trend_of:
  "trend_entry vals = Inr (if 1 < length vals then Some (trend_of vals) else None)"
  by (simp add: trend_entry_ok trend_of_def)

lemma dict_set_fresh:
  "\<forall>k' \<in> set (map fst t). \<not> py_eq k' k \<Longrightarrow> dict_set t k v = t @ [(k, v)]"
  by (induction t) auto

lemma trends_loop_distinct:
  "distinct fs \<Longrightarrow> \<forall>k \<in> set (map fst t). \<forall>f \<in> set fs. \<not> py_eq k (VStr f) \<Longrightarrow>
   trends_loop records fs t =
     Inr (t @ map (\<lambda>f. (VStr f, trend_of (trend_values f records))) (filter (has_trend records) fs))"
proof (induction fs arbitrary: t)
  case Nil
  then show ?case by simp
next
  case (Cons f fs)
  show ?case
  proof (cases "has_trend records f")
    case False
    then have "\<not> 1 < length (trend_values f records)" by (simp add: has_trend_def)
    then have "trends_loop records (f # fs) t = trends_loop records fs t"
      by (simp add: trend_entry_trend_of)
    moreover from Cons.prems have "distinct fs"
      and "\<forall>k \<in> set (map fst t). \<forall>g \<in> set fs. \<not> py_eq k (VStr g)" by auto
    ultimately show ?thesis using Cons.IH [of t] False by simp
  next
    case True
    let ?t = "t @ [(VStr f, trend_of (trend_values f records))]"
    have fresh: "dict_set t (VStr f) (trend_of (trend_values f records)) = ?t"
      using Cons.prems(2) by (intro dict_set_fresh) simp
    have "\<forall>k \<in> set (map fst ?t). \<forall>g \<in> set fs. \<not> py_eq k (VStr g)"
      using Cons.prems by auto
    with Cons.IH [of ?t] Cons.prems(1)
    have "trends_loop records fs ?t =
        Inr (?t @ map (\<lambda>f. (VStr f, trend_of (trend_values f records))) (filter (has_trend records) fs))"
      by simp
    then have rest: "trends_loop records fs ?t =
        Inr (t @ map (\<lambda>f. (VStr f, trend_of (trend_values f records)))
                  (filter (has_trend records) (f # fs)))"
      using True by simp
    from True have "1 < length (trend_values f records)" by (simp add: has_trend_def)
    with fresh have "trends_loop records (f # fs) t = trends_loop records fs ?t"
      by (simp add: trend_entry_trend_of)
    with rest show ?thesis by simp
  qed
qed

lemma selected_distinct:
  "admissible_order (set_order env) \<Longrightarrow> distinct (selected_fields env records)"
  by (simp add: admissible_order_def selected_fields_def)

lemma selected_subset:
  "admissible_order (set_order env) \<Longrightarrow>
     set (selected_fields env records) \<subseteq> set (discovered_fields records)"
  unfolding admissible_order_def selected_fields_def
  by (metis set_take_subset)

lemma selected_all:
  assumes "admissible_order (set_order env)" "card (set (discovered_fields records)) \<le> 5"
  shows "set (selected_fields env records) = set (discovered_fields records)"
proof -
  let ?o = "set_order env (discovered_fields records)"
  from assms(1) have d: "distinct ?o" and s: "set ?o = set (discovered_fields records)"
    by (simp_all add: admissible_order_def)
  from d have "length ?o = card (set ?o)" by (simp add: distinct_card)
  with s assms(2) have "length ?o \<le> 5" by simp
  then have "take 5 ?o = ?o" by simp
  with s show ?thesis by (simp add: selected_fields_def)
qed

lemma analyze_trends_eq:
  assumes "admissible_order (set_order env)"
  shows "analyze_trends env records =
     Inr (DDict (map (\<lambda>f. (VStr f, trend_of (trend_values f records)))
                  (filter (has_trend records) (selected_fields env records))))"
  using trends_loop_distinct [OF selected_distinct [OF assms], of "[]" records records]
  by (simp add: analyze_trends_def)

lemma discovered_iff:
  "f \<in> set (discovered_fields records) \<longleftrightarrow>
     (\<exists>r \<in> set records. \<exists>v. (f, v) \<in> set r \<and> is_numeric_candidate v)"
proof
  assume "f \<in> set (discovered_fields records)"
  then obtain r where r: "r \<in> set records"
      and f: "f \<in> fst ` set (filter (\<lambda>(key, val). is_numeric_candidate val) r)"
    by (auto simp: discovered_fields_def)
  from f obtain v where "(f, v) \<in> set r" "is_numeric_candidate v" by auto
  with r show "\<exists>r \<in> set records. \<exists>v. (f, v) \<in> set r \<and> is_numeric_candidate v" by blast
next
  assume "\<exists>r \<in> set records. \<exists>v. (f, v) \<in> set r \<and> is_numeric_candidate v"
  then obtain r v where r: "r \<in> set records" and v: "(f, v) \<in> set r" "is_numeric_candidate v"
    by blast
  from v have "f \<in> fst ` set (filter (\<lambda>(key, val). is_numeric_candidate val) r)"
    by force
  with r show "f \<in> set (discovered_fields records)"
    by (auto simp: discovered_fields_def)
qed

lemma dict_get_mapped:
  "dict_get (map (\<lambda>f. (VStr f, g f)) fs) (VStr f) = (if f \<in> set fs then Some (g f) else None)"
  by (induction fs) auto

lemma trend_lookup:
  assumes "admissible_order (set_order env)"
  shows "result_path (analyze_trends env records) [f] =
     (if f \<in> set (selected_fields env records) \<and> has_trend records f
      then Some (trend_of (trend_values f records)) else None)"
  by (simp add: analyze_trends_eq [OF assms] result_path_def dict_get_mapped)

lemma admissible_plain: "admissible_order (set_order plain_env)"
  by (simp add: admissible_order_def plain_env_def)

lemma admissible_reverse: "admissible_order (set_order reverse_env)"
  by (simp add: admissible_order_def reverse_env_def)


text \<open>
  Claim C5. A list of fewer than two values gives no trend entry. \<^verbatim>\<open>[5, 5]\<close> gives
  direction decreasing and change 0; \<^verbatim>\<open>[0, 10]\<close> gives direction increasing and change
  0, by the rule for a first value of zero. In general the direction is increasing
  exactly when the last value is greater than the first, and the change is
  \<^verbatim>\<open>(last - first) / first * 100\<close> when the first value is not zero. In the analysis, a
  field with fewer than two values has no entry, and the entry of a selected field is
  the one its values give.
\<close>

theorem trend_entry_rules:
  "(length vals < 2 \<longrightarrow> trend_entry vals = Inr None)
   \<and> trend_entry [Fin 5, Fin 5] = Inr (Some (DDict
        [(VStr ''trend'', DStr ''decreasing''), (VStr ''change_percent'', DFloat (Fin 0)),
         (VStr ''values'', DList [DFloat (Fin 5), DFloat (Fin 5)])]))
   \<and> trend_entry [Fin 0, Fin 10] = Inr (Some (DDict
        [(VStr ''trend'', DStr ''increasing''), (VStr ''change_percent'', DInt 0),
         (VStr ''values'', DList [DFloat (Fin 0), DFloat (Fin 10)])]))
   \<and> (2 \<le> length vals \<longrightarrow>
        (\<exists>c. trend_entry vals = Inr (Some (DDict
          [(VStr ''trend'', DStr (if fgt (last vals) (hd vals) then ''increasing'' else ''decreasing'')),
           (VStr ''change_percent'', c),
           (VStr ''values'', DList (map DFloat (take 10 vals)))]))
         \<and> (hd vals \<noteq> Fin 0 \<longrightarrow>
               c = DFloat (fmul (fdiv (fsub (last vals) (hd vals)) (hd vals)) (Fin 100)))
         \<and> (hd vals = Fin 0 \<longrightarrow> c = DInt 0)
         \<and> (\<forall>a b. hd vals = Fin a \<and> last vals = Fin b \<and> a \<noteq> 0 \<longrightarrow>
               c = DFloat (Fin ((b - a) / a * 100)))))
   \<and> (admissible_order (set_order env) \<and> length (trend_values f records) < 2 \<longrightarrow>
        result_path (analyze_trends env records) [f] = None)
   \<and> (admissible_order (set_order env) \<and> f \<in> set (selected_fields env records) \<longrightarrow>
        Inr (result_path (analyze_trends env records) [f]) = trend_entry (trend_values f records))"
proof -
  have "admissible_order (set_order env) \<and> length (trend_values f records) < 2 \<longrightarrow>
        result_path (analyze_trends env records) [f] = None"
    by (simp add: trend_lookup has_trend_def)
  moreover have "admissible_order (set_order env) \<and> f \<in> set (selected_fields env records) \<longrightarrow>
        Inr (result_path (analyze_trends env records) [f]) = trend_entry (trend_values f records)"
    by (simp add: trend_lookup has_trend_def trend_entry_trend_of)
  moreover have "2 \<le> length vals \<longrightarrow>
        (\<exists>c. trend_entry vals = Inr (Some (DDict
          [(VStr ''trend'', DStr (if fgt (last vals) (hd vals) then ''increasing'' else ''decreasing'')),
           (VStr ''change_percent'', c),
           (VStr ''values'', DList (map DFloat (take 10 vals)))]))
         \<and> (hd vals \<noteq> Fin 0 \<longrightarrow>
               c = DFloat (fmul (fdiv (fsub (last vals) (hd vals)) (hd vals)) (Fin 100)))
         \<and> (hd vals = Fin 0 \<longrightarrow> c = DInt 0)
         \<and> (\<forall>a b. hd vals = Fin a \<and> last vals = Fin b \<and> a \<noteq> 0 \<longrightarrow>
               c = DFloat (Fin ((b - a) / a * 100))))"
    by (auto simp add: trend_entry_ok trend_direction_def fsub_def)
  moreover have "length vals < 2 \<longrightarrow> trend_entry vals = Inr None"
    by (simp add: trend_entry_ok)
  moreover have "trend_entry [Fin 5, Fin 5] = Inr (Some (DDict
        [(VStr ''trend'', DStr ''decreasing''), (VStr ''change_percent'', DFloat (Fin 0)),
         (VStr ''values'', DList [DFloat (Fin 5), DFloat (Fin 5)])]))"
    by (simp add: trend_entry_ok trend_direction_def fgt_def fsub_def)
  moreover have "trend_entry [Fin 0, Fin 10] = Inr (Some (DDict
        [(VStr ''trend'', DStr ''increasing''), (VStr ''change_percent'', DInt 0),
         (VStr ''values'', DList [DFloat (Fin 0), DFloat (Fin 10)])]))"
    by (simp add: trend_entry_ok trend_direction_def fgt_def fsub_def)
  ultimately show ?thesis by blast
qed


theorem trend_entry_rules_witness:
  "2 \<le> length [Fin 2, Fin 3]
   \<and> trend_entry [Fin 2, Fin 3] = Inr (Some (DDict
        [(VStr ''trend'', DStr ''increasing''), (VStr ''change_percent'', DFloat (Fin 50)),
         (VStr ''values'', DList [DFloat (Fin 2), DFloat (Fin 3)])]))
   \<and> admissible_order (set_order plain_env)
   \<and> ''x'' \<in> set (selected_fields plain_env zero_ten_records)
   \<and> trend_values ''x'' zero_ten_records = [Fin 0, Fin 10]
   \<and> result_path (analyze_trends plain_env zero_ten_records) [''x''] = Some (DDict
        [(VStr ''trend'', DStr ''increasing''), (VStr ''change_percent'', DInt 0),
         (VStr ''values'', DList [DFloat (Fin 0), DFloat (Fin 10)])])"
proof -
  note r = trend_entry_rules [of "[Fin 2, Fin 3]" plain_env "''x''" zero_ten_records]
  have len: "2 \<le> length [Fin 2 :: pyfloat, Fin 3]" by simp
  from r len obtain c where
    c1: "trend_entry [Fin 2, Fin 3] = Inr (Some (DDict
          [(VStr ''trend'', DStr (if fgt (last [Fin 2, Fin 3]) (hd [Fin 2, Fin 3])
              then ''increasing'' else ''decreasing'')),
           (VStr ''change_percent'', c),
           (VStr ''values'', DList (map DFloat (take 10 [Fin 2, Fin 3])))]))"
    and c2: "\<forall>a b. hd [Fin 2, Fin 3] = Fin a \<and> last [Fin 2, Fin 3] = Fin b \<and> a \<noteq> 0 \<longrightarrow>
               c = DFloat (Fin ((b - a) / a * 100))"
    by blast
  from c2 have "c = DFloat (Fin 50)" by simp
  with c1 have t1: "trend_entry [Fin 2, Fin 3] = Inr (Some (DDict
        [(VStr ''trend'', DStr ''increasing''), (VStr ''change_percent'', DFloat (Fin 50)),
         (VStr ''values'', DList [DFloat (Fin 2), DFloat (Fin 3)])]))"
    by (simp add: fgt_def)
  have sel: "''x'' \<in> set (selected_fields plain_env zero_ten_records)" by code_simp
  have tv: "trend_values ''x'' zero_ten_records = [Fin 0, Fin 10]" by code_simp
  from r admissible_plain sel
  have "Inr (result_path (analyze_trends plain_env zero_ten_records) [''x'']) =
      trend_entry (trend_values ''x'' zero_ten_records)"
    by blast
  also from r have "trend_entry (trend_values ''x'' zero_ten_records) = Inr (Some (DDict
        [(VStr ''trend'', DStr ''increasing''), (VStr ''change_percent'', DInt 0),
         (VStr ''values'', DList [DFloat (Fin 0), DFloat (Fin 10)])]))"
    unfolding tv by blast
  finally show ?thesis using len t1 admissible_plain sel tv by simp
qed

text \<open>
  Claim C6, as the code has it. Under any iteration order of the de-duplicating set,
  the fields with a trend entry are the selected fields that have at least two values,
  in selection order; the selected fields are the first five names the set yields, so
  at most five, distinct, and all of them candidates, that is, held by some record as
  a native number or an all-digit string; when there are at most five distinct
  candidates all of them are selected.
\<close>

theorem trend_field_selection:
  assumes "admissible_order (set_order env)"
  shows "result_keys (analyze_trends env records) =
           Inr (map VStr (filter (has_trend records) (selected_fields env records)))
       \<and> selected_fields env records = take 5 (set_order env (discovered_fields records))
       \<and> length (selected_fields env records) \<le> 5
       \<and> distinct (selected_fields env records)
       \<and> set (selected_fields env records) \<subseteq> set (discovered_fields records)
       \<and> (\<forall>f. f \<in> set (discovered_fields records) \<longleftrightarrow>
              (\<exists>r \<in> set records. \<exists>v. (f, v) \<in> set r \<and> is_numeric_candidate v))
       \<and> (card (set (discovered_fields records)) \<le> 5 \<longrightarrow>
              set (selected_fields env records) = set (discovered_fields records))"
proof -
  have "result_keys (analyze_trends env records) =
      Inr (map VStr (filter (has_trend records) (selected_fields env records)))"
    by (simp add: analyze_trends_eq [OF assms] result_keys_def comp_def)
  moreover have "length (selected_fields env records) \<le> 5"
    by (simp add: selected_fields_def)
  moreover note selected_distinct [OF assms] selected_subset [OF assms]
  moreover have "\<forall>f. f \<in> set (discovered_fields records) \<longleftrightarrow>
      (\<exists>r \<in> set records. \<exists>v. (f, v) \<in> set r \<and> is_numeric_candidate v)"
    using discovered_iff by blast
  ultimately show ?thesis
    using selected_all [OF assms] by (simp add: selected_fields_def)
qed


theorem trend_field_selection_witness:
  "admissible_order (set_order plain_env)
   \<and> result_keys (analyze_trends plain_env six_field_records) =
       Inr [VStr ''a'', VStr ''b'', VStr ''c'', VStr ''d'', VStr ''e'']
   \<and> length (selected_fields plain_env six_field_records) \<le> 5"
proof -
  have sel: "selected_fields plain_env six_field_records = [''a'', ''b'', ''c'', ''d'', ''e'']"
    by code_simp
  have tr: "filter (has_trend six_field_records) [''a'', ''b'', ''c'', ''d'', ''e''] =
      [''a'', ''b'', ''c'', ''d'', ''e'']"
    by code_simp
  have k: "result_keys (analyze_trends plain_env six_field_records) =
      Inr (map VStr (filter (has_trend six_field_records)
        (selected_fields plain_env six_field_records)))"
    and l: "length (selected_fields plain_env six_field_records) \<le> 5"
    using trend_field_selection [OF admissible_plain, of six_field_records] by blast+
  from k have "result_keys (analyze_trends plain_env six_field_records) =
      Inr (map VStr [''a'', ''b'', ''c'', ''d'', ''e''])"
    by (simp only: sel tr)
  then show ?thesis using admissible_plain l by simp
qed


text \<open>
  With six candidate fields and a set that iterates in the opposite order of
  insertion, the five selected fields are not the first five discovered.
\<close>

theorem trend_selection_not_discovery_order:
  "admissible_order (set_order reverse_env)
   \<and> result_keys (analyze_trends reverse_env six_field_records) =
       Inr [VStr ''f'', VStr ''e'', VStr ''d'', VStr ''c'', VStr ''b'']
   \<and> take 5 (remdups (discovered_fields six_field_records)) = [''a'', ''b'', ''c'', ''d'', ''e'']"
proof -
  have "result_keys (analyze_trends reverse_env six_field_records) =
       Inr [VStr ''f'', VStr ''e'', VStr ''d'', VStr ''c'', VStr ''b'']"
    by code_simp
  moreover have "take 5 (remdups (discovered_fields six_field_records)) =
      [''a'', ''b'', ''c'', ''d'', ''e'']"
    by code_simp
  ultimately show ?thesis using admissible_reverse by simp
qed



text \<open>
  Claim C9. A field with a trend entry is held by some record as a native number or
  an all-digit string; a field whose every value is a string that is not all digits
  is not selected and has no entry. \<^verbatim>\<open>"7.5"\<close> and \<^verbatim>\<open>"-3"\<close> are such strings although
  \<^verbatim>\<open>float\<close> parses both: two records holding them give two values and no trend.
\<close>

theorem trend_candidates_need_digit_form:
  assumes "admissible_order (set_order env)"
  shows "(result_path (analyze_trends env records) [f] \<noteq> None \<longrightarrow>
            (\<exists>r \<in> set records. \<exists>v. (f, v) \<in> set r \<and> is_numeric_candidate v))
       \<and> ((\<forall>r \<in> set records. \<forall>v. (f, v) \<in> set r \<longrightarrow> (\<exists>s. v = VStr s \<and> \<not> str_isdigit s)) \<longrightarrow>
            f \<notin> set (selected_fields env records)
            \<and> result_path (analyze_trends env records) [f] = None)
       \<and> (is_numeric_candidate v \<longleftrightarrow>
            (\<exists>i. v = VInt i) \<or> (\<exists>x. v = VFloat x)
            \<or> (\<exists>s. v = VStr s \<and> s \<noteq> [] \<and> (\<forall>c \<in> set s. is_unicode_digit c)))
       \<and> \<not> is_numeric_candidate (VStr ''7.5'') \<and> \<not> is_numeric_candidate (VStr ''-3'')
       \<and> try_float (VStr ''7.5'') = Some (Fin (15 / 2))
       \<and> try_float (VStr ''-3'') = Some (Fin (- 3))
       \<and> trend_values ''x'' [[(''x'', VStr ''7.5'')], [(''x'', VStr ''-3'')]] =
            [Fin (15 / 2), Fin (- 3)]
       \<and> analyze_trends env [[(''x'', VStr ''7.5'')], [(''x'', VStr ''-3'')]] = Inr (DDict [])"
proof -
  have a: "result_path (analyze_trends env records) [f] \<noteq> None \<longrightarrow>
      (\<exists>r \<in> set records. \<exists>v. (f, v) \<in> set r \<and> is_numeric_candidate v)"
  proof
    assume "result_path (analyze_trends env records) [f] \<noteq> None"
    then have "f \<in> set (selected_fields env records)"
      by (simp add: trend_lookup [OF assms] split: if_splits)
    with selected_subset [OF assms] have "f \<in> set (discovered_fields records)" by blast
    then show "\<exists>r \<in> set records. \<exists>v. (f, v) \<in> set r \<and> is_numeric_candidate v"
      by (simp add: discovered_iff)
  qed
  have b: "(\<forall>r \<in> set records. \<forall>v. (f, v) \<in> set r \<longrightarrow> (\<exists>s. v = VStr s \<and> \<not> str_isdigit s)) \<longrightarrow>
      f \<notin> set (selected_fields env records)
      \<and> result_path (analyze_trends env records) [f] = None"
  proof
    assume h: "\<forall>r \<in> set records. \<forall>v. (f, v) \<in> set r \<longrightarrow> (\<exists>s. v = VStr s \<and> \<not> str_isdigit s)"
    have "f \<notin> set (discovered_fields records)"
    proof
      assume "f \<in> set (discovered_fields records)"
      then obtain r v where "r \<in> set records" "(f, v) \<in> set r" "is_numeric_candidate v"
        by (auto simp: discovered_iff)
      with h show False by fastforce
    qed
    with selected_subset [OF assms] have "f \<notin> set (selected_fields env records)" by blast
    then show "f \<notin> set (selected_fields env records)
        \<and> result_path (analyze_trends env records) [f] = None"
      by (simp add: trend_lookup [OF assms])
  qed
  have c: "is_numeric_candidate v \<longleftrightarrow>
      (\<exists>i. v = VInt i) \<or> (\<exists>x. v = VFloat x)
      \<or> (\<exists>s. v = VStr s \<and> s \<noteq> [] \<and> (\<forall>c \<in> set s. is_unicode_digit c))"
    by (cases v) (simp_all add: str_isdigit_def list_all_iff)
  have d: "\<not> is_numeric_candidate (VStr ''7.5'')" "\<not> is_numeric_candidate (VStr ''-3'')"
    "try_float (VStr ''7.5'') = Some (Fin (15 / 2))"
    "try_float (VStr ''-3'') = Some (Fin (- 3))"
    "trend_values ''x'' [[(''x'', VStr ''7.5'')], [(''x'', VStr ''-3'')]] =
       [Fin (15 / 2), Fin (- 3)]"
    by code_simp+
  have "discovered_fields [[(''x'', VStr ''7.5'')], [(''x'', VStr ''-3'')]] = []"
    by code_simp
  moreover from assms have "set (set_order env []) = set []"
    unfolding admissible_order_def by blast
  ultimately have "selected_fields env [[(''x'', VStr ''7.5'')], [(''x'', VStr ''-3'')]] = []"
    by (simp add: selected_fields_def)
  then have e: "analyze_trends env [[(''x'', VStr ''7.5'')], [(''x'', VStr ''-3'')]] = Inr (DDict [])"
    by (simp add: analyze_trends_def)
  from a b c d e show ?thesis by blast
qed


theorem trend_candidates_need_digit_form_witness:
  "admissible_order (set_order plain_env)
   \<and> analyze_trends plain_env [[(''x'', VStr ''7.5'')], [(''x'', VStr ''-3'')]] = Inr (DDict [])
   \<and> try_float (VStr ''7.5'') = Some (Fin (15 / 2))
   \<and> result_path (analyze_trends plain_env [[(''x'', VStr ''7.5'')], [(''x'', VStr ''-3'')]]) [''x'']
       = None"
proof -
  have h: "\<forall>r \<in> set [[(''x'', VStr ''7.5'')], [(''x'', VStr ''-3'')]]. \<forall>v.
      (''x'', v) \<in> set r \<longrightarrow> (\<exists>s. v = VStr s \<and> \<not> str_isdigit s)"
    by (simp add: str_isdigit_def is_unicode_digit_def is_ascii_digit_def)
  from trend_candidates_need_digit_form [OF admissible_plain,
      of "[[(''x'', VStr ''7.5'')], [(''x'', VStr ''-3'')]]" "''x''"] h admissible_plain
  show ?thesis by blast
qed

section \<open>Falsy values\<close>

lemma map_of_drop_falsy:
  "map_of (drop_falsy names r) k =
     (if k \<in> set names \<and> \<not> truthy (get_default r k VNone) then None else map_of r k)"
proof -
  have "map_of (filter (\<lambda>(k', v). \<not> (k' \<in> set names \<and> \<not> truthy (get_default r0 k' VNone))) r) k =
     (if k \<in> set names \<and> \<not> truthy (get_default r0 k VNone) then None else map_of r k)" for r0
    by (induction r) auto
  then show ?thesis by (simp add: drop_falsy_def)
qed

lemma get_default_drop_falsy:
  "truthy (get_default (drop_falsy names r) k VNone) = truthy (get_default r k VNone)"
  by (simp add: get_default_def map_of_drop_falsy)

lemma get_default_drop_falsy_truthy:
  "truthy (get_default r k VNone) \<Longrightarrow> get_default (drop_falsy names r) k d = get_default r k d"
  by (simp add: get_default_def map_of_drop_falsy)

lemma get_default_drop_falsy_other:
  "k \<notin> set names \<Longrightarrow> get_default (drop_falsy names r) k d = get_default r k d"
  by (simp add: get_default_def map_of_drop_falsy)

lemma truthy_values_drop_falsy:
  "truthy_values field d (map (drop_falsy names) records) = truthy_values field d records"
  by (induction records)
     (simp_all add: truthy_values_def get_default_drop_falsy get_default_drop_falsy_truthy)

lemma field_values_drop_falsy:
  "field_values (map (drop_falsy names) records) field = field_values records field"
proof (induction records)
  case Nil
  show ?case by (simp add: field_values_def)
next
  case (Cons r records)
  have "truthy (get_default r field VNone) \<Longrightarrow>
      get_default (drop_falsy names r) field VNone = get_default r field VNone"
    by (rule get_default_drop_falsy_truthy)
  with Cons show ?case
    by (simp add: field_values_def get_default_drop_falsy)
qed

lemma utilization_loop_drop_falsy:
  "utilization_loop (map (drop_falsy names) records) fs stats = utilization_loop records fs stats"
  by (induction fs arbitrary: stats)
     (simp_all add: field_values_drop_falsy Let_def split: sum.splits)

lemma the_records_init: "the_records (init recs) = recs"
  by (simp add: the_records_def init_def map_nth)

lemma data_init_empty: "data (init recs) = [] \<longleftrightarrow> recs = []"
  by (simp add: init_def)

lemma participant_or_none_drop_falsy:
  "''participant_id'' \<notin> set names \<Longrightarrow> ''record_id'' \<notin> set names \<Longrightarrow>
     participant_or_none (drop_falsy names r) = participant_or_none r"
  by (simp add: participant_or_none_def get_default_drop_falsy_other)

lemma residence_key_drop_falsy:
  "''residence_type'' \<notin> set names \<Longrightarrow> ''location'' \<notin> set names \<Longrightarrow>
     residence_key (drop_falsy names r) = residence_key r"
  by (simp add: residence_key_def get_default_drop_falsy_other)

lemma group_append_map:
  "group_append (map (\<lambda>(k, rs). (k, map g rs)) gs) k (g r) =
     map (\<lambda>(k, rs). (k, map g rs)) (group_append gs k r)"
  by (induction gs k r rule: group_append.induct) auto

lemma group_by_map:
  assumes "\<And>r. keyf (g r) = keyf r"
  shows "group_by keyf (map g recs) = map (\<lambda>(k, rs). (k, map g rs)) (group_by keyf recs)"
proof (induction recs rule: rev_induct)
  case Nil
  show ?case by (simp add: group_by_def)
next
  case (snoc r recs)
  have "group_by keyf (map g (recs @ [r])) =
      group_append (group_by keyf (map g recs)) (keyf (g r)) (g r)"
    by (simp add: group_by_def)
  also have "\<dots> = group_append (map (\<lambda>(k, rs). (k, map g rs)) (group_by keyf recs)) (keyf r) (g r)"
    by (simp add: snoc assms)
  also have "\<dots> = map (\<lambda>(k, rs). (k, map g rs)) (group_append (group_by keyf recs) (keyf r) r)"
    by (rule group_append_map)
  finally show ?case by (simp add: group_by_def)
qed

lemma calculate_residence_metrics_drop_falsy:
  "calculate_residence_metrics (map (drop_falsy names) records) =
     calculate_residence_metrics records"
  by (simp add: calculate_residence_metrics_def truthy_values_drop_falsy)

lemma analyze_residence_demographics_drop_falsy:
  "analyze_residence_demographics (map (drop_falsy names) records) =
     analyze_residence_demographics records"
  by (simp add: analyze_residence_demographics_def truthy_values_drop_falsy Let_def
      cong: sum.case_cong)

lemma residence_entry_drop_falsy:
  "residence_entry (map (drop_falsy names) records) = residence_entry records"
  by (simp add: residence_entry_def calculate_residence_metrics_drop_falsy
      analyze_residence_demographics_drop_falsy cong: sum.case_cong)

lemma comparison_loop_drop_falsy:
  "comparison_loop (map (\<lambda>(k, rs). (k, map (drop_falsy names) rs)) gs) c = comparison_loop gs c"
  by (induction gs c rule: comparison_loop.induct)
     (simp_all add: residence_entry_drop_falsy split: sum.splits)


text \<open>
  Claim C8. A falsy value (0, 0.0, the empty string, \<^verbatim>\<open>None\<close>) of a healthcare field, of
  \<^verbatim>\<open>health_score\<close> or of \<^verbatim>\<open>age\<close> is treated as absent: removing every such entry from
  the records changes nothing in the utilization document, nor in the residence
  comparison. A visit count of 0 or \<^verbatim>\<open>""\<close> is not among the field's values, a
  \<^verbatim>\<open>health_score\<close> of 0 is not among the scores averaged and an \<^verbatim>\<open>age\<close> of 0 is not
  among the ages averaged.
\<close>

theorem falsy_values_count_as_absent:
  "fst (analyze_healthcare_utilization (init (map (drop_falsy healthcare_fields) recs))) =
     fst (analyze_healthcare_utilization (init recs))
   \<and> fst (analyze_residence_comparison (init (map (drop_falsy [''health_score'', ''age'']) recs))) =
     fst (analyze_residence_comparison (init recs))
   \<and> field_values zero_visit_records ''healthcare_visits'' = [VInt 3]
   \<and> truthy_values ''health_score'' (VInt 0) zero_visit_records = [VInt 80]
   \<and> truthy_values ''age'' (VInt 0) zero_visit_records = [VInt 70]"
proof -
  have "fst (analyze_healthcare_utilization (init (map (drop_falsy healthcare_fields) recs))) =
     fst (analyze_healthcare_utilization (init recs))"
  proof -
    have "map participant_or_none (map (drop_falsy healthcare_fields) recs) =
        map participant_or_none recs"
      by (simp add: participant_or_none_drop_falsy healthcare_fields_def)
    then show ?thesis
      by (simp add: analyze_healthcare_utilization_def the_records_init data_init_empty
          utilization_loop_drop_falsy Let_def del: map_map cong: sum.case_cong)
  qed
  moreover
  have "fst (analyze_residence_comparison (init (map (drop_falsy [''health_score'', ''age'']) recs))) =
     fst (analyze_residence_comparison (init recs))"
  proof -
    have "group_by residence_key (map (drop_falsy [''health_score'', ''age'']) recs) =
        map (\<lambda>(k, rs). (k, map (drop_falsy [''health_score'', ''age'']) rs))
          (group_by residence_key recs)"
      by (rule group_by_map) (simp add: residence_key_drop_falsy)
    then show ?thesis
      by (simp add: analyze_residence_comparison_def the_records_init data_init_empty
          comparison_loop_drop_falsy Let_def cong: sum.case_cong)
  qed
  moreover have "field_values zero_visit_records ''healthcare_visits'' = [VInt 3]"
    by code_simp
  moreover have "truthy_values ''health_score'' (VInt 0) zero_visit_records = [VInt 80]"
    by code_simp
  moreover have "truthy_values ''age'' (VInt 0) zero_visit_records = [VInt 70]"
    by code_simp
  ultimately show ?thesis by blast
qed


theorem falsy_values_count_as_absent_witness:
  "map (drop_falsy healthcare_fields) zero_visit_records =
     [[(''health_score'', VInt 0), (''age'', VInt 0)],
      [(''health_score'', VInt 80), (''age'', VInt 70)],
      [(''healthcare_visits'', VInt 3)]]
   \<and> fst (analyze_healthcare_utilization (init zero_visit_records)) =
     fst (analyze_healthcare_utilization (init
       [[(''health_score'', VInt 0), (''age'', VInt 0)],
        [(''health_score'', VInt 80), (''age'', VInt 70)],
        [(''healthcare_visits'', VInt 3)]]))
   \<and> result_path (fst (analyze_healthcare_utilization (init zero_visit_records)))
       [''utilization_stats'', ''healthcare_visits'', ''count''] = Some (DInt 1)"
proof -
  have m: "map (drop_falsy healthcare_fields) zero_visit_records =
     [[(''health_score'', VInt 0), (''age'', VInt 0)],
      [(''health_score'', VInt 80), (''age'', VInt 70)],
      [(''healthcare_visits'', VInt 3)]]"
    by code_simp
  have c: "result_path (fst (analyze_healthcare_utilization (init zero_visit_records)))
       [''utilization_stats'', ''healthcare_visits'', ''count''] = Some (DInt 1)"
    by code_simp
  from falsy_values_count_as_absent [of zero_visit_records]
  have "fst (analyze_healthcare_utilization (init (map (drop_falsy healthcare_fields) zero_visit_records))) =
     fst (analyze_healthcare_utilization (init zero_visit_records))"
    by (rule conjunct1)
  with m c show ?thesis by simp
qed

section \<open>Residence insights\<close>

lemma keys_apart_append:
  "keys_apart (xs @ ys) \<longleftrightarrow>
     keys_apart xs \<and> keys_apart ys \<and> (\<forall>x \<in> set xs. \<forall>y \<in> set ys. \<not> py_eq x y)"
  by (induction xs) auto

lemma comparison_loop_entries:
  "comparison_loop gs c = Inr tbl \<Longrightarrow> keys_apart (map fst c @ map fst gs) \<Longrightarrow>
     \<exists>es. tbl = c @ es \<and> list_all2 entry_of gs es"
proof (induction gs c arbitrary: tbl rule: comparison_loop.induct)
  case (1 c)
  then show ?case by simp
next
  case (2 residence records gs c)
  from "2.prems"(1) obtain d where d: "residence_entry records = Inr d"
    and rest: "comparison_loop gs (dict_set c residence d) = Inr tbl"
    by (auto split: sum.splits)
  from "2.prems"(2) have fresh: "\<forall>k' \<in> set (map fst c). \<not> py_eq k' residence"
    by (auto simp: keys_apart_append)
  then have ds: "dict_set c residence d = c @ [(residence, d)]"
    by (rule dict_set_fresh)
  from "2.prems"(2) have "keys_apart (map fst (c @ [(residence, d)]) @ map fst gs)"
    by (auto simp: keys_apart_append)
  with "2.IH" [OF d, of tbl] rest ds obtain es where
    es: "tbl = (c @ [(residence, d)]) @ es" "list_all2 entry_of gs es"
    by auto
  from es d have "tbl = c @ ((residence, d) # es)"
    and "list_all2 entry_of ((residence, records) # gs) ((residence, d) # es)"
    by (simp_all add: entry_of_def)
  then show ?case by blast
qed

lemma max_by_in: "max_by f b xs \<in> set (b # xs)"
  by (induction xs arbitrary: b) (auto split: if_splits)

lemma count_of_entry:
  "residence_entry rs = Inr d \<Longrightarrow> count_of ''participant_count'' d = int (length rs)"
  by (auto simp: residence_entry_def count_of_def split: sum.splits)

lemma entries_total:
  "list_all2 entry_of gs es \<Longrightarrow>
     sum_list (map (\<lambda>(k, d). count_of ''participant_count'' d) es) =
       int (length (concat (map snd gs)))"
proof (induction gs es rule: list_all2_induct)
  case Nil
  show ?case by simp
next
  case (Cons g gs e es)
  then show ?case
    by (cases e) (simp add: entry_of_def count_of_entry)
qed

lemma entries_keys: "list_all2 entry_of gs es \<Longrightarrow> map fst es = map fst gs"
  by (induction gs es rule: list_all2_induct) (simp_all add: entry_of_def)

lemma group_by_total: "length (concat (map snd (group_by keyf recs))) = length recs"
proof -
  have "size (mset (concat (map snd (group_by keyf recs)))) = size (mset recs)"
    by (simp only: group_by_mset)
  then show ?thesis by simp
qed

lemma residence_comparison_result:
  assumes "fst (analyze_residence_comparison (init recs)) = Inr d" and "recs \<noteq> []"
  shows "\<exists>tbl. d = DDict
      [(VStr ''total_residences'', DLen (group_by residence_key recs)),
       (VStr ''comparison'', DDict tbl),
       (VStr ''insights'', generate_residence_insights tbl)]
     \<and> list_all2 entry_of (group_by residence_key recs) tbl"
proof -
  from assms obtain tbl where
    c: "comparison_loop (group_by residence_key recs) [] = Inr tbl"
    and d: "d = DDict
      [(VStr ''total_residences'', DLen (group_by residence_key recs)),
       (VStr ''comparison'', DDict tbl),
       (VStr ''insights'', generate_residence_insights tbl)]"
    by (auto simp: analyze_residence_comparison_def the_records_init data_init_empty Let_def
        split: sum.splits)
  from comparison_loop_entries [OF c] group_by_apart [of residence_key recs]
  have "list_all2 entry_of (group_by residence_key recs) tbl" by simp
  with d show ?thesis by blast
qed

lemma group_by_nonempty: "recs \<noteq> [] \<Longrightarrow> group_by keyf recs \<noteq> []"
proof
  assume "recs \<noteq> []" "group_by keyf recs = []"
  then have "mset (concat (map snd (group_by keyf recs))) = {#}" by simp
  with \<open>recs \<noteq> []\<close> show False by (simp add: group_by_mset)
qed


text \<open>
  Claim C10. In a residence comparison that returns a document, the insights list is
  empty exactly when the records resolve to a single residence group. With two or
  more groups it holds both texts: the best residence, which is one of the group
  keys, and the rollup of the number of records over the number of groups.
\<close>

theorem residence_insights_need_two_groups:
  assumes "fst (analyze_residence_comparison (init recs)) = Inr d" and "recs \<noteq> []"
  shows "(length (group_by residence_key recs) = 1 \<longrightarrow> doc_get d ''insights'' = Some (DList []))
       \<and> (doc_get d ''insights'' = Some (DList []) \<longleftrightarrow> length (group_by residence_key recs) = 1)
       \<and> (1 < length (group_by residence_key recs) \<longrightarrow>
            (\<exists>best. doc_get d ''insights'' = Some (DList
               [DFmt [FLit (''Melhor performance de sa'' @ [CHR 0xFA] @ ''de: ''), FVal best],
                DFmt [FLit ''Total de '', FInt (int (length recs)),
                      FLit ('' participantes distribu'' @ [CHR 0xED] @ ''dos entre ''),
                      FInt (int (length (group_by residence_key recs))),
                      FLit ('' resid'' @ [CHR 0xEA] @ ''ncias'')]])
             \<and> best \<in> set (map fst (group_by residence_key recs))))"
proof -
  let ?G = "group_by residence_key recs"
  from residence_comparison_result [OF assms] obtain tbl where
    d: "d = DDict
      [(VStr ''total_residences'', DLen ?G),
       (VStr ''comparison'', DDict tbl),
       (VStr ''insights'', generate_residence_insights tbl)]"
    and e: "list_all2 entry_of ?G tbl"
    by blast
  from d have ins: "doc_get d ''insights'' = Some (generate_residence_insights tbl)" by simp
  from e have len: "length tbl = length ?G" by (simp add: list_all2_lengthD)
  from group_by_nonempty [OF assms(2)] have pos: "0 < length ?G" by simp
  have one: "length ?G = 1 \<Longrightarrow> generate_residence_insights tbl = DList []"
    using len by (simp add: generate_residence_insights_def)
  have many: "\<exists>best. generate_residence_insights tbl = DList
               [DFmt [FLit (''Melhor performance de sa'' @ [CHR 0xFA] @ ''de: ''), FVal best],
                DFmt [FLit ''Total de '', FInt (int (length recs)),
                      FLit ('' participantes distribu'' @ [CHR 0xED] @ ''dos entre ''),
                      FInt (int (length ?G)),
                      FLit ('' resid'' @ [CHR 0xEA] @ ''ncias'')]]
             \<and> best \<in> set (map fst ?G)" if "1 < length ?G"
  proof -
    let ?best = "fst (max_by (\<lambda>(k, d). health_score_of d) (hd tbl) (tl tbl))"
    from that len have ne: "tbl \<noteq> []" by auto
    have "max_by (\<lambda>(k, d). health_score_of d) (hd tbl) (tl tbl) \<in> set (hd tbl # tl tbl)"
      by (rule max_by_in)
    with ne have "?best \<in> set (map fst tbl)" by simp
    with entries_keys [OF e] have b: "?best \<in> set (map fst ?G)" by simp
    have tot: "sum_list (map (\<lambda>(k, d). count_of ''participant_count'' d) tbl) = int (length recs)"
      by (simp add: entries_total [OF e] group_by_total)
    from that len tot have "generate_residence_insights tbl = DList
               [DFmt [FLit (''Melhor performance de sa'' @ [CHR 0xFA] @ ''de: ''), FVal ?best],
                DFmt [FLit ''Total de '', FInt (int (length recs)),
                      FLit ('' participantes distribu'' @ [CHR 0xED] @ ''dos entre ''),
                      FInt (int (length ?G)),
                      FLit ('' resid'' @ [CHR 0xEA] @ ''ncias'')]]"
      by (simp add: generate_residence_insights_def Let_def)
    with b show ?thesis by blast
  qed
  have iff: "generate_residence_insights tbl = DList [] \<longleftrightarrow> length ?G = 1"
  proof
    assume emp: "generate_residence_insights tbl = DList []"
    show "length ?G = 1"
    proof (rule ccontr)
      assume "length ?G \<noteq> 1"
      with pos have "1 < length ?G" by linarith
      from many [OF this] emp show False by auto
    qed
  next
    assume "length ?G = 1"
    then show "generate_residence_insights tbl = DList []" by (rule one)
  qed
  from one many iff show ?thesis unfolding ins by blast
qed


theorem residence_insights_need_two_groups_witness:
  "urban_records \<noteq> []
   \<and> length (group_by residence_key urban_records) = 1
   \<and> result_path (fst (analyze_residence_comparison (init urban_records))) [''insights''] =
       Some (DList [])"
proof -
  have ne: "urban_records \<noteq> []" by (simp add: urban_records_def)
  have one: "length (group_by residence_key urban_records) = 1" by code_simp
  have "case fst (analyze_residence_comparison (init urban_records)) of
          Inl e \<Rightarrow> False | Inr d \<Rightarrow> True"
    by code_simp
  then obtain d where d: "fst (analyze_residence_comparison (init urban_records)) = Inr d"
    by (auto split: sum.splits)
  from residence_insights_need_two_groups [OF d ne] one
  have "doc_get d ''insights'' = Some (DList [])" by blast
  with d ne one show ?thesis by (simp add: result_path_def)
qed

section \<open>The analyses leave the object as it was\<close>

lemma copy_fields_spec:
  "dst < length h \<Longrightarrow> src \<noteq> dst \<Longrightarrow>
     copy_fields names src dst h = h[dst := copied_fields names (h ! src) (h ! dst)]"
proof (induction names arbitrary: h)
  case Nil
  then show ?case by (simp add: copied_fields_def)
next
  case (Cons f fs)
  let ?step = "\<lambda>d. case map_of (h ! src) f of Some v \<Rightarrow> record_set d f v | None \<Rightarrow> d"
  let ?h = "case map_of (h ! src) f of Some v \<Rightarrow> heap_store h dst f v | None \<Rightarrow> h"
  have h': "?h = h[dst := ?step (h ! dst)]"
    by (simp add: heap_store_def split: option.splits)
  have "copy_fields (f # fs) src dst h = copy_fields fs src dst ?h" by simp
  also have "\<dots> = (h[dst := ?step (h ! dst)])[dst :=
      copied_fields fs ((h[dst := ?step (h ! dst)]) ! src) ((h[dst := ?step (h ! dst)]) ! dst)]"
    unfolding h' using Cons.prems by (intro Cons.IH) simp_all
  also have "\<dots> = h[dst := copied_fields fs (h ! src) (?step (h ! dst))]"
    using Cons.prems by simp
  also have "copied_fields fs (h ! src) (?step (h ! dst)) = copied_fields (f # fs) (h ! src) (h ! dst)"
    by (simp add: copied_fields_def)
  finally show ?case .
qed

lemma extract_domain_spec:
  "\<forall>a \<in> set as. a < length h \<Longrightarrow>
     \<exists>news addrs. extract_domain names as h acc = (acc @ addrs, h @ news)
       \<and> map ((!) (h @ news)) addrs = extracted names (map ((!) h) as)
       \<and> (\<forall>a \<in> set addrs. length h \<le> a)"
proof (induction as arbitrary: h acc)
  case Nil
  then show ?case by (simp add: extracted_def List.map_filter_simps)
next
  case (Cons a as)
  let ?n = "length h"
  let ?d = "copied_fields names (h ! a) []"
  from Cons.prems have a: "a < ?n" by simp
  have h2: "copy_fields names a ?n (h @ [[]]) = h @ [?d]"
    using a by (simp add: copy_fields_spec nth_append)
  show ?case
  proof (cases "?d = []")
    case True
    have valid: "\<forall>b \<in> set as. b < length (h @ [[]])" using Cons.prems by auto
    from Cons.IH [OF valid, of acc] obtain news addrs where
      r: "extract_domain names as (h @ [[]]) acc = (acc @ addrs, (h @ [[]]) @ news)"
      and m: "map ((!) ((h @ [[]]) @ news)) addrs = extracted names (map ((!) (h @ [[]])) as)"
      and g: "\<forall>b \<in> set addrs. length (h @ [[]]) \<le> b"
      by blast
    have same: "map ((!) (h @ [[]])) as = map ((!) h) as"
      using Cons.prems by (simp add: nth_append)
    have "extract_domain names (a # as) h acc = (acc @ addrs, h @ ([] # news))"
      using True h2 r by (simp add: heap_alloc_def)
    moreover have "map ((!) (h @ ([] # news))) addrs = extracted names (map ((!) h) (a # as))"
      using m same True by (simp add: extracted_def List.map_filter_simps extract_record_def)
    moreover have "\<forall>b \<in> set addrs. length h \<le> b" using g by auto
    ultimately show ?thesis by blast
  next
    case False
    let ?e = "record_set ?d ''participant_id'' (participant_or_none (h ! a))"
    have h3: "heap_store (h @ [?d]) ?n ''participant_id'' (participant_or_none ((h @ [?d]) ! a)) =
        h @ [?e]"
      using a by (simp add: heap_store_def nth_append)
    have valid: "\<forall>b \<in> set as. b < length (h @ [?e])" using Cons.prems by auto
    from Cons.IH [OF valid, of "acc @ [?n]"] obtain news addrs where
      r: "extract_domain names as (h @ [?e]) (acc @ [?n]) = ((acc @ [?n]) @ addrs, (h @ [?e]) @ news)"
      and m: "map ((!) ((h @ [?e]) @ news)) addrs = extracted names (map ((!) (h @ [?e])) as)"
      and g: "\<forall>b \<in> set addrs. length (h @ [?e]) \<le> b"
      by blast
    have same: "map ((!) (h @ [?e])) as = map ((!) h) as"
      using Cons.prems by (simp add: nth_append)
    have "extract_domain names (a # as) h acc = (acc @ (?n # addrs), h @ (?e # news))"
      using False h2 h3 r by (simp add: heap_alloc_def)
    moreover have "map ((!) (h @ (?e # news))) (?n # addrs) = extracted names (map ((!) h) (a # as))"
      using m same False by (simp add: extracted_def List.map_filter_simps extract_record_def)
    moreover have "\<forall>b \<in> set (?n # addrs). length h \<le> b" using g by auto
    ultimately show ?thesis by blast
  qed
qed

lemma extends_refl: "extends s s"
  by (simp add: extends_def)

lemma extends_nth:
  assumes "extends s s'" "a < length (heap s)"
  shows "heap s' ! a = heap s ! a"
proof -
  from assms have "heap s ! a = take (length (heap s)) (heap s') ! a"
    by (simp add: extends_def)
  also from assms(2) have "\<dots> = heap s' ! a" by simp
  finally show ?thesis by simp
qed

lemma extends_records:
  assumes "wf_state s" "extends s s'"
  shows "the_records s' = the_records s" and "wf_state s'" and "data s' = data s"
proof -
  from assms(1) have v: "\<forall>a \<in> set (data s). a < length (heap s)"
    by (simp add: wf_state_def list_all_iff)
  from assms(2) have d: "data s' = data s" by (simp add: extends_def)
  show "the_records s' = the_records s"
    using v d extends_nth [OF assms(2)] by (simp add: the_records_def)
  show "wf_state s'"
  proof -
    from assms(1) have "\<forall>a \<in> set (data s @ processed_data s). a < length (heap s)"
      by (simp add: wf_state_def list_all_iff)
    moreover from assms(2) have "length (heap s) \<le> length (heap s')"
      and "data s' @ processed_data s' = data s @ processed_data s"
      by (simp_all add: extends_def)
    ultimately have "\<forall>a \<in> set (data s' @ processed_data s'). a < length (heap s')"
      by (metis less_le_trans)
    then show ?thesis by (simp add: wf_state_def list_all_iff)
  qed
  show "data s' = data s" by (rule d)
qed

lemma extract_result:
  assumes "wf_state s"
  shows "\<exists>news addrs. extract_domain names (data s) (heap s) [] = (addrs, heap s @ news)
       \<and> map ((!) (heap s @ news)) addrs = extracted names (the_records s)"
proof -
  from assms have "\<forall>a \<in> set (data s). a < length (heap s)"
    by (simp add: wf_state_def list_all_iff)
  from extract_domain_spec [OF this, of names "[]"] show ?thesis
    by (auto simp: the_records_def)
qed

lemma sleep_fst:
  assumes "wf_state s"
  shows "fst (analyze_sleep_patterns s) =
     (if data s = [] then Inr (DDict [(VStr ''message'', DStr msg_no_data)])
      else sleep_analysis (extracted sleep_fields (the_records s)))"
proof -
  from extract_result [OF assms, of sleep_fields] obtain news addrs where
    "extract_domain sleep_fields (data s) (heap s) [] = (addrs, heap s @ news)"
    "map ((!) (heap s @ news)) addrs = extracted sleep_fields (the_records s)"
    by blast
  then show ?thesis by (simp add: analyze_sleep_patterns_def)
qed

lemma sleep_snd:
  assumes "wf_state s"
  shows "extends s (snd (analyze_sleep_patterns s))"
proof -
  from extract_result [OF assms, of sleep_fields] obtain news addrs where
    "extract_domain sleep_fields (data s) (heap s) [] = (addrs, heap s @ news)"
    by blast
  then show ?thesis by (simp add: analyze_sleep_patterns_def extends_def)
qed

lemma medication_fst:
  assumes "wf_state s"
  shows "fst (analyze_medication_adherence s) =
     (if data s = [] then Inr (DDict [(VStr ''message'', DStr msg_no_data)])
      else medication_analysis (extracted medication_fields (the_records s)))"
proof -
  from extract_result [OF assms, of medication_fields] obtain news addrs where
    "extract_domain medication_fields (data s) (heap s) [] = (addrs, heap s @ news)"
    "map ((!) (heap s @ news)) addrs = extracted medication_fields (the_records s)"
    by blast
  then show ?thesis by (simp add: analyze_medication_adherence_def)
qed

lemma medication_snd:
  assumes "wf_state s"
  shows "extends s (snd (analyze_medication_adherence s))"
proof -
  from extract_result [OF assms, of medication_fields] obtain news addrs where
    "extract_domain medication_fields (data s) (heap s) [] = (addrs, heap s @ news)"
    by blast
  then show ?thesis by (simp add: analyze_medication_adherence_def extends_def)
qed

lemma readonly_snd:
  "snd (analyze_longitudinal_data env s) = s"
  "snd (analyze_healthcare_utilization s) = s"
  "snd (analyze_residence_comparison s) = s"
  by (simp_all add: analyze_longitudinal_data_def analyze_healthcare_utilization_def
      analyze_residence_comparison_def Let_def)

lemma readonly_fst:
  assumes "the_records s' = the_records s" "data s' = data s"
  shows "fst (analyze_longitudinal_data env s') = fst (analyze_longitudinal_data env s)"
    and "fst (analyze_healthcare_utilization s') = fst (analyze_healthcare_utilization s)"
    and "fst (analyze_residence_comparison s') = fst (analyze_residence_comparison s)"
  using assms
  by (simp_all add: analyze_longitudinal_data_def analyze_healthcare_utilization_def
      analyze_residence_comparison_def Let_def)

lemma analysis_extends:
  assumes "wf_state s" "A \<in> set (analyses env)"
  shows "extends s (snd (A s))"
  using assms(2) sleep_snd [OF assms(1)] medication_snd [OF assms(1)]
  by (auto simp: analyses_def readonly_snd extends_refl)

lemma analysis_stateless:
  assumes "wf_state s" "extends s s'" "B \<in> set (analyses env)"
  shows "fst (B s') = fst (B s)"
proof -
  note r = extends_records [OF assms(1,2)]
  have "fst (analyze_sleep_patterns s') = fst (analyze_sleep_patterns s)"
    by (simp add: sleep_fst [OF assms(1)] sleep_fst [OF r(2)] r(1,3))
  moreover have "fst (analyze_medication_adherence s') = fst (analyze_medication_adherence s)"
    by (simp add: medication_fst [OF assms(1)] medication_fst [OF r(2)] r(1,3))
  ultimately show ?thesis
    using assms(3) readonly_fst [OF r(1,3)] by (auto simp: analyses_def)
qed

lemma wf_init: "wf_state (init recs)"
  by (simp add: wf_state_def init_def list_all_iff)


text \<open>
  Claim C7. From a well-formed state every one of the five analyses leaves
  \<^verbatim>\<open>self.data\<close> and \<^verbatim>\<open>self.processed_data\<close> as they were and every dict of the heap
  unchanged: the dicts that sleep and medication analysis write to are the ones they
  allocate. The result of an analysis is the same after any analysis has run, so
  calling one twice gives equal results.
\<close>

theorem analyses_leave_input_unchanged:
  assumes "wf_state s"
  shows "(\<forall>A \<in> set (analyses env).
            data (snd (A s)) = data s
            \<and> processed_data (snd (A s)) = processed_data s
            \<and> take (length (heap s)) (heap (snd (A s))) = heap s
            \<and> the_records (snd (A s)) = the_records s
            \<and> wf_state (snd (A s)))
       \<and> (\<forall>A \<in> set (analyses env). \<forall>B \<in> set (analyses env).
            fst (B (snd (A s))) = fst (B s))"
proof -
  have "data (snd (A s)) = data s
      \<and> processed_data (snd (A s)) = processed_data s
      \<and> take (length (heap s)) (heap (snd (A s))) = heap s
      \<and> the_records (snd (A s)) = the_records s
      \<and> wf_state (snd (A s))" if "A \<in> set (analyses env)" for A
  proof -
    from analysis_extends [OF assms that] have e: "extends s (snd (A s))" .
    with extends_records [OF assms e] show ?thesis by (simp add: extends_def)
  qed
  moreover have "fst (B (snd (A s))) = fst (B s)"
    if "A \<in> set (analyses env)" "B \<in> set (analyses env)" for A B
    using analysis_stateless [OF assms analysis_extends [OF assms that(1)] that(2)] .
  ultimately show ?thesis by blast
qed


theorem analyses_leave_input_unchanged_witness:
  "wf_state (init (mixed_records ''sleep_quality''))
   \<and> data (snd (analyze_sleep_patterns (init (mixed_records ''sleep_quality'')))) = [0, 1, 2, 3]
   \<and> take 4 (heap (snd (analyze_sleep_patterns (init (mixed_records ''sleep_quality''))))) =
       mixed_records ''sleep_quality''
   \<and> length (heap (snd (analyze_sleep_patterns (init (mixed_records ''sleep_quality''))))) = 8
   \<and> fst (analyze_sleep_patterns (snd (analyze_sleep_patterns (init (mixed_records ''sleep_quality''))))) =
       fst (analyze_sleep_patterns (init (mixed_records ''sleep_quality'')))"
proof -
  let ?s = "init (mixed_records ''sleep_quality'')"
  have w: "wf_state ?s" by (rule wf_init)
  have in_list: "analyze_sleep_patterns \<in> set (analyses plain_env)" by (simp add: analyses_def)
  note t = analyses_leave_input_unchanged [OF w, of plain_env]
  from t in_list have "data (snd (analyze_sleep_patterns ?s)) = data ?s"
    and "take (length (heap ?s)) (heap (snd (analyze_sleep_patterns ?s))) = heap ?s"
    and "fst (analyze_sleep_patterns (snd (analyze_sleep_patterns ?s))) = fst (analyze_sleep_patterns ?s)"
    by blast+
  moreover have "data ?s = [0, 1, 2, 3]" "heap ?s = mixed_records ''sleep_quality''"
    "length (heap ?s) = 4"
    by (simp_all add: init_def mixed_records_def upt_rec)
  moreover have "length (heap (snd (analyze_sleep_patterns ?s))) = 8" by code_simp
  ultimately show ?thesis using w by simp
qed

end
